theory Spec2Isabelle
  imports Main "HOL-Library.Sublist"
begin

section \<open>Python strings\<close>

text \<open>
  A Python \<open>str\<close> is modelled as a \<open>string\<close>, a list of 8-bit characters holding the
  text in UTF-8. The operations of \<open>str\<close> that the program and \<open>urllib.parse\<close> use are
  defined on it. The letters of a scheme and of the name pattern are ASCII letters, and
  their case is converted here; what Python does with the case of text beyond ASCII is
  either modelled on the UTF-8 text (the \<open>re.IGNORECASE\<close> flag, below) or taken as a
  parameter (\<open>str.upper\<close>, below).
\<close>

definition ascii_lowercase :: string where
  "ascii_lowercase = ''abcdefghijklmnopqrstuvwxyz''"

definition ascii_uppercase :: string where
  "ascii_uppercase = ''ABCDEFGHIJKLMNOPQRSTUVWXYZ''"

definition char_upper :: "char \<Rightarrow> char" where
  "char_upper c =
     (case map_of (zip ascii_lowercase ascii_uppercase) c of Some d \<Rightarrow> d | None \<Rightarrow> c)"

definition char_lower :: "char \<Rightarrow> char" where
  "char_lower c =
     (case map_of (zip ascii_uppercase ascii_lowercase) c of Some d \<Rightarrow> d | None \<Rightarrow> c)"

text \<open>
  \<open>s.upper()\<close> and \<open>s.lower()\<close> for a text \<open>s\<close> that is ASCII. \<open>urlsplit\<close> lowers a scheme,
  which consists of \<open>scheme_chars\<close>.
\<close>

definition ascii_upper :: "string \<Rightarrow> string" where
  "ascii_upper s = map char_upper s"

definition str_lower :: "string \<Rightarrow> string" where
  "str_lower s = map char_lower s"

text \<open>\<open>c.isascii() and c.isalpha()\<close> for a single character.\<close>

definition is_ascii_alpha :: "char \<Rightarrow> bool" where
  "is_ascii_alpha c = (c \<in> set (ascii_lowercase @ ascii_uppercase))"

text \<open>\<open>s.isascii()\<close>: every code point is below 128, that is every byte of the UTF-8 text.\<close>

definition str_isascii :: "string \<Rightarrow> bool" where
  "str_isascii s = list_all (\<lambda>c. (of_char c :: nat) < 128) s"

text \<open>
  \<open>s.find(c)\<close> and \<open>s.rfind(c)\<close> for a single character: the index of the first (last)
  occurrence; Python's \<open>-1\<close> is \<open>None\<close>.
\<close>

definition str_find :: "char \<Rightarrow> string \<Rightarrow> nat option" where
  "str_find c s =
     (if c \<in> set s then Some (length (takeWhile (\<lambda>d. d \<noteq> c) s)) else None)"

definition str_rfind :: "char \<Rightarrow> string \<Rightarrow> nat option" where
  "str_rfind c s =
     (if c \<in> set s then Some (length s - 1 - length (takeWhile (\<lambda>d. d \<noteq> c) (rev s)))
      else None)"

text \<open>\<open>s.lstrip(chars)\<close> and \<open>s.strip(chars)\<close>.\<close>

definition str_lstrip :: "string \<Rightarrow> string \<Rightarrow> string" where
  "str_lstrip chars s = dropWhile (\<lambda>c. c \<in> set chars) s"

definition str_strip :: "string \<Rightarrow> string \<Rightarrow> string" where
  "str_strip chars s = rev (str_lstrip chars (rev (str_lstrip chars s)))"

text \<open>\<open>s.replace(b, "")\<close> for each single character \<open>b\<close> of a list.\<close>

definition str_remove :: "string \<Rightarrow> string \<Rightarrow> string" where
  "str_remove bs s = filter (\<lambda>c. c \<notin> set bs) s"

text \<open>\<open>s.split(c, 1)\<close> where \<open>c\<close> occurs in \<open>s\<close>: the text before and after the first \<open>c\<close>.\<close>

definition str_split1 :: "char \<Rightarrow> string \<Rightarrow> string \<times> string" where
  "str_split1 c s = (takeWhile (\<lambda>d. d \<noteq> c) s, drop 1 (dropWhile (\<lambda>d. d \<noteq> c) s))"

text \<open>\<open>s.split(c)\<close>: never the empty list.\<close>

fun str_split :: "char \<Rightarrow> string \<Rightarrow> string list" where
  "str_split c [] = [[]]"
| "str_split c (x # xs) =
     (if x = c then [] # str_split c xs
      else (case str_split c xs of
              [] \<Rightarrow> [[x]]
            | s # ss \<Rightarrow> (x # s) # ss))"

text \<open>\<open>sep.join(parts)\<close>.\<close>

fun str_join :: "string \<Rightarrow> string list \<Rightarrow> string" where
  "str_join sep [] = []"
| "str_join sep [s] = s"
| "str_join sep (s # t # ss) = s @ sep @ str_join sep (t # ss)"

text \<open>\<open>str(n)\<close> for a natural number.\<close>

definition digit_char :: "nat \<Rightarrow> char" where
  "digit_char d = ''0123456789'' ! d"

function str_nat :: "nat \<Rightarrow> string" where
  "str_nat n = (if n < 10 then [digit_char n] else str_nat (n div 10) @ [digit_char (n mod 10)])"
  by pat_completeness auto
termination
  by (relation "measure (\<lambda>n. n)") auto

declare str_nat.simps [simp del]

section \<open>Exceptions\<close>

text \<open>
  A raised exception is a value: its class and its message. \<open>HTTPError\<close>,
  \<open>ConnectionError\<close> and \<open>Timeout\<close> are the subclasses of
  \<open>requests.exceptions.RequestException\<close> that the fetch can raise; every class here
  is a subclass of \<open>Exception\<close>.
\<close>

datatype exn_class =
    ValueError | TypeError | AttributeError
  | RequestException | HTTPError | ConnectionError | Timeout
  | OtherException

datatype py_exn = Exn (exn_cls: exn_class) (exn_msg: string)

definition is_RequestException :: "py_exn \<Rightarrow> bool" where
  "is_RequestException e =
     (exn_cls e \<in> {RequestException, HTTPError, ConnectionError, Timeout})"

section \<open>The libraries the program calls\<close>

text \<open>
  The program calls \<open>urllib.parse\<close>, \<open>requests\<close> and \<open>bs4\<close>. The functions
  \<open>urlsplit\<close>, \<open>urlparse\<close>, \<open>urlunsplit\<close>, \<open>urlunparse\<close> and \<open>urljoin\<close> are
  embedded below from \<open>Lib/urllib/parse.py\<close> of CPython 3.11, with \<open>allow_fragments\<close>
  at its default \<open>True\<close>, the only value the program uses. What they in turn take from
  further modules (\<open>ipaddress\<close>, \<open>unicodedata\<close>), the network and the HTML parser are
  parameters of the model, collected in the record \<open>external\<close>.
\<close>

record response =
  status_code :: nat
  content :: string

text \<open>
  A parsed HTML node (\<open>bs4.element.Tag\<close> or \<open>NavigableString\<close>). The attributes of a
  tag are a dict from attribute name to value; \<open>method\<close>, \<open>action\<close>, \<open>type\<close> and
  \<open>name\<close> are single-valued, so their values are strings.
\<close>

datatype element =
    Tag (tag_name: string) (attrs: "string \<rightharpoonup> string") (contents: "element list")
  | NavigableString string

record external =
  bracketed_host_invalid :: "string \<Rightarrow> bool"
  nfkc_invalid :: "string \<Rightarrow> bool"
  requests_get :: "string \<Rightarrow> py_exn + response"
  html_parser :: "string \<Rightarrow> py_exn + element"
  unicode_upper :: "string \<Rightarrow> string"

text \<open>
  \<^item> \<open>bracketed_host_invalid h\<close>: \<open>_check_bracketed_host(h)\<close> raises \<open>ValueError\<close>;
  \<^item> \<open>nfkc_invalid n\<close>: \<open>_checknetloc(n)\<close> raises \<open>ValueError\<close> on the netloc \<open>n\<close>,
    which is not ASCII (a character of it normalises under NFKC to a delimiter);
  \<^item> \<open>requests_get url\<close>: the outcome of \<open>requests.get(url, timeout=10)\<close>;
  \<^item> \<open>html_parser content\<close>: the outcome of \<open>BeautifulSoup(content, 'html.parser')\<close>,
    the document node;
  \<^item> \<open>unicode_upper s\<close>: \<open>s.upper()\<close> for a text \<open>s\<close> that is not ASCII, which Python
    computes from the case mappings of the Unicode character database (a sharp s
    becomes \<open>SS\<close>, an e with an acute accent its capital).
\<close>

text \<open>\<open>s.upper()\<close> for any text.\<close>

definition str_upper :: "external \<Rightarrow> string \<Rightarrow> string" where
  "str_upper ext s = (if str_isascii s then ascii_upper s else unicode_upper ext s)"

subsection \<open>urllib.parse\<close>

definition uses_relative :: "string list" where
  "uses_relative = ['''', ''ftp'', ''http'', ''gopher'', ''nntp'', ''imap'',
                    ''wais'', ''file'', ''https'', ''shttp'', ''mms'',
                    ''prospero'', ''rtsp'', ''rtsps'', ''rtspu'', ''sftp'',
                    ''svn'', ''svn+ssh'', ''ws'', ''wss'']"

definition uses_netloc :: "string list" where
  "uses_netloc = ['''', ''ftp'', ''http'', ''gopher'', ''nntp'', ''telnet'',
                  ''imap'', ''wais'', ''file'', ''mms'', ''https'', ''shttp'',
                  ''snews'', ''prospero'', ''rtsp'', ''rtsps'', ''rtspu'', ''rsync'',
                  ''svn'', ''svn+ssh'', ''sftp'', ''nfs'', ''git'', ''git+ssh'',
                  ''ws'', ''wss'']"

definition uses_params :: "string list" where
  "uses_params = ['''', ''ftp'', ''hdl'', ''prospero'', ''http'', ''imap'',
                  ''https'', ''shttp'', ''rtsp'', ''rtsps'', ''rtspu'', ''sip'',
                  ''sips'', ''mms'', ''sftp'', ''tel'']"

definition scheme_chars :: string where
  "scheme_chars = ascii_lowercase @ ascii_uppercase @ ''0123456789'' @ ''+-.''"

definition WHATWG_C0_CONTROL_OR_SPACE :: string where
  "WHATWG_C0_CONTROL_OR_SPACE =
     [CHR 0x00, CHR 0x01, CHR 0x02, CHR 0x03, CHR 0x04, CHR 0x05, CHR 0x06, CHR 0x07,
      CHR 0x08, CHR 0x09, CHR 0x0A, CHR 0x0B, CHR 0x0C, CHR 0x0D, CHR 0x0E, CHR 0x0F,
      CHR 0x10, CHR 0x11, CHR 0x12, CHR 0x13, CHR 0x14, CHR 0x15, CHR 0x16, CHR 0x17,
      CHR 0x18, CHR 0x19, CHR 0x1A, CHR 0x1B, CHR 0x1C, CHR 0x1D, CHR 0x1E, CHR 0x1F,
      CHR '' '']"

definition UNSAFE_URL_BYTES_TO_REMOVE :: string where
  "UNSAFE_URL_BYTES_TO_REMOVE = [CHR 0x09, CHR 0x0D, CHR 0x0A]"

text \<open>
  \<open>_splitnetloc(url, start)\<close>: the netloc ends at the earliest of \<open>/\<close>, \<open>?\<close> and \<open>#\<close>
  from \<open>start\<close> on, or at the end of the text.
\<close>

definition splitnetloc :: "string \<Rightarrow> nat \<Rightarrow> string \<times> string" where
  "splitnetloc url start =
     (takeWhile (\<lambda>c. c \<notin> set ''/?#'') (drop start url),
      dropWhile (\<lambda>c. c \<notin> set ''/?#'') (drop start url))"

text \<open>\<open>netloc.partition('[')[2].partition(']')[0]\<close>.\<close>

definition bracketed_host_of :: "string \<Rightarrow> string" where
  "bracketed_host_of netloc =
     takeWhile (\<lambda>c. c \<noteq> CHR '']'') (drop 1 (dropWhile (\<lambda>c. c \<noteq> CHR ''['') netloc))"

text \<open>
  The scheme of \<open>urlsplit\<close>: the text before the first colon, when that text is not
  empty, starts with an ASCII letter and consists of \<open>scheme_chars\<close>; it is lowercased
  and the rest of the URL is what follows the colon. Otherwise the default scheme stays.
\<close>

definition split_scheme :: "string \<Rightarrow> string \<Rightarrow> string \<times> string" where
  "split_scheme url scheme =
     (case str_find CHR '':'' url of
        None \<Rightarrow> (scheme, url)
      | Some i \<Rightarrow>
          if i > 0 \<and> is_ascii_alpha (hd url) \<and> list_all (\<lambda>c. c \<in> set scheme_chars) (take i url)
          then (str_lower (take i url), drop (i + 1) url)
          else (scheme, url))"

text \<open>
  The end of \<open>urlsplit\<close>: the fragment after the first \<open>#\<close>, then the query after the
  first \<open>?\<close>, then \<open>_checknetloc\<close>, which returns at once on an empty or ASCII netloc.
\<close>

definition split_rest ::
  "external \<Rightarrow> string \<Rightarrow> string \<Rightarrow> string
     \<Rightarrow> py_exn + (string \<times> string \<times> string \<times> string \<times> string)" where
  "split_rest ext scheme netloc url =
     (let (url1, fragment) =
            (if CHR ''#'' \<in> set url then str_split1 CHR ''#'' url else (url, ''''));
          (url2, query) =
            (if CHR ''?'' \<in> set url1 then str_split1 CHR ''?'' url1 else (url1, ''''))
      in if netloc \<noteq> '''' \<and> \<not> str_isascii netloc \<and> nfkc_invalid ext netloc
         then Inl (Exn ValueError ''netloc contains invalid characters under NFKC normalization'')
         else Inr (scheme, netloc, url2, query, fragment))"

text \<open>
  The middle of \<open>urlsplit\<close>: where the rest of the URL starts with \<open>//\<close> the netloc is
  split off and its brackets are checked.
\<close>

definition split_authority ::
  "external \<Rightarrow> string \<Rightarrow> string
     \<Rightarrow> py_exn + (string \<times> string \<times> string \<times> string \<times> string)" where
  "split_authority ext scheme url =
     (if take 2 url = ''//'' then
        (let (netloc, url2) = splitnetloc url 2
         in if (CHR ''['' \<in> set netloc \<and> CHR '']'' \<notin> set netloc) \<or>
               (CHR '']'' \<in> set netloc \<and> CHR ''['' \<notin> set netloc)
            then Inl (Exn ValueError ''Invalid IPv6 URL'')
            else if CHR ''['' \<in> set netloc \<and> CHR '']'' \<in> set netloc \<and>
                    bracketed_host_invalid ext (bracketed_host_of netloc)
            then Inl (Exn ValueError ''Invalid bracketed host'')
            else split_rest ext scheme netloc url2)
      else split_rest ext scheme '''' url)"

definition urlsplit ::
  "external \<Rightarrow> string \<Rightarrow> string
     \<Rightarrow> py_exn + (string \<times> string \<times> string \<times> string \<times> string)" where
  "urlsplit ext url0 scheme0 =
     (let url1 = str_remove UNSAFE_URL_BYTES_TO_REMOVE (str_lstrip WHATWG_C0_CONTROL_OR_SPACE url0);
          scheme1 = str_remove UNSAFE_URL_BYTES_TO_REMOVE (str_strip WHATWG_C0_CONTROL_OR_SPACE scheme0);
          (scheme, url) = split_scheme url1 scheme1
      in split_authority ext scheme url)"

text \<open>\<open>ParseResult\<close>, the named 6-tuple of \<open>urlparse\<close>.\<close>

record parse_result =
  scheme :: string
  netloc :: string
  path :: string
  params :: string
  query :: string
  fragment :: string

text \<open>
  \<open>_splitparams(url)\<close>, called where \<open>;\<close> occurs in \<open>url\<close>: the parameters follow the
  first \<open>;\<close> of the last path segment.
\<close>

definition splitparams :: "string \<Rightarrow> string \<times> string" where
  "splitparams url =
     (if CHR ''/'' \<in> set url then
        (let r = the (str_rfind CHR ''/'' url)
         in case str_find CHR '';'' (drop r url) of
              None \<Rightarrow> (url, '''')
            | Some j \<Rightarrow> (take (r + j) url, drop (r + j + 1) url))
      else
        (let i = the (str_find CHR '';'' url)
         in (take i url, drop (i + 1) url)))"

definition urlparse :: "external \<Rightarrow> string \<Rightarrow> string \<Rightarrow> py_exn + parse_result" where
  "urlparse ext url scheme0 =
     (case urlsplit ext url scheme0 of
        Inl e \<Rightarrow> Inl e
      | Inr (sch, nl, url1, q, frag) \<Rightarrow>
          (let (url2, ps) =
                 (if sch \<in> set uses_params \<and> CHR '';'' \<in> set url1
                  then splitparams url1 else (url1, ''''))
           in Inr \<lparr>scheme = sch, netloc = nl, path = url2, params = ps,
                    query = q, fragment = frag\<rparr>))"

definition urlunsplit :: "string \<times> string \<times> string \<times> string \<times> string \<Rightarrow> string" where
  "urlunsplit components =
     (case components of (sch, nl, url, q, frag) \<Rightarrow>
        (let url1 =
               (if nl \<noteq> '''' \<or> (sch \<noteq> '''' \<and> sch \<in> set uses_netloc) \<or> take 2 url = ''//''
                then ''//'' @ nl @ (if url \<noteq> '''' \<and> take 1 url \<noteq> ''/'' then ''/'' @ url else url)
                else url);
             url2 = (if sch \<noteq> '''' then sch @ '':'' @ url1 else url1);
             url3 = (if q \<noteq> '''' then url2 @ ''?'' @ q else url2)
         in if frag \<noteq> '''' then url3 @ ''#'' @ frag else url3))"

definition urlunparse :: "parse_result \<Rightarrow> string" where
  "urlunparse p =
     urlunsplit (scheme p, netloc p,
                 (if params p \<noteq> '''' then path p @ '';'' @ params p else path p),
                 query p, fragment p)"

text \<open>
  The path resolution at the end of \<open>urljoin\<close>. \<open>filter_middle\<close> is the slice
  assignment \<open>segments[1:-1] = filter(None, segments[1:-1])\<close>; \<open>resolve_segments\<close>
  is the loop over the segments, where \<open>..\<close> pops the last resolved segment (and is
  ignored when there is none) and \<open>.\<close> is skipped.
\<close>

definition filter_middle :: "string list \<Rightarrow> string list" where
  "filter_middle segments =
     (if length segments < 2 then segments
      else hd segments # filter (\<lambda>s. s \<noteq> '''') (butlast (tl segments)) @ [last segments])"

fun resolve_segments :: "string list \<Rightarrow> string list \<Rightarrow> string list" where
  "resolve_segments resolved_path [] = resolved_path"
| "resolve_segments resolved_path (seg # segments) =
     (if seg = ''..'' then resolve_segments (butlast resolved_path) segments
      else if seg = ''.'' then resolve_segments resolved_path segments
      else resolve_segments (resolved_path @ [seg]) segments)"

definition resolve_path :: "string \<Rightarrow> string \<Rightarrow> string" where
  "resolve_path bpath upath =
     (let base_parts0 = str_split CHR ''/'' bpath;
          base_parts = (if last base_parts0 \<noteq> '''' then butlast base_parts0 else base_parts0);
          segments =
            (if take 1 upath = ''/'' then str_split CHR ''/'' upath
             else filter_middle (base_parts @ str_split CHR ''/'' upath));
          resolved_path0 = resolve_segments [] segments;
          resolved_path =
            (if last segments \<in> {''.'', ''..''} then resolved_path0 @ [''''] else resolved_path0);
          joined = str_join ''/'' resolved_path
      in if joined \<noteq> '''' then joined else ''/'')"

definition urljoin :: "external \<Rightarrow> string \<Rightarrow> string \<Rightarrow> py_exn + string" where
  "urljoin ext base url =
     (if base = '''' then Inr url
      else if url = '''' then Inr base
      else
        case urlparse ext base '''' of
          Inl e \<Rightarrow> Inl e
        | Inr b \<Rightarrow>
           (case urlparse ext url (scheme b) of
              Inl e \<Rightarrow> Inl e
            | Inr u \<Rightarrow>
                if scheme u \<noteq> scheme b \<or> scheme u \<notin> set uses_relative then Inr url
                else if scheme u \<in> set uses_netloc \<and> netloc u \<noteq> '''' then Inr (urlunparse u)
                else
                  (let nl = (if scheme u \<in> set uses_netloc then netloc b else netloc u)
                   in if path u = '''' \<and> params u = '''' then
                        Inr (urlunparse
                               (u\<lparr>netloc := nl, path := path b, params := params b,
                                  query := (if query u = '''' then query b else query u)\<rparr>))
                      else
                        Inr (urlunparse
                               (u\<lparr>netloc := nl, path := resolve_path (path b) (path u)\<rparr>)))))"

subsection \<open>requests and bs4\<close>

text \<open>
  \<open>response.raise_for_status()\<close> raises \<open>HTTPError\<close> for a status from 400 to 599 (the
  source's comment: ``Raise HTTPError for bad responses (4xx or 5xx)'') and returns
  for every other status.
\<close>

definition raise_for_status :: "response \<Rightarrow> py_exn + unit" where
  "raise_for_status r =
     (if 400 \<le> status_code r \<and> status_code r < 500
        then Inl (Exn HTTPError (str_nat (status_code r) @ '' Client Error''))
      else if 500 \<le> status_code r \<and> status_code r < 600
        then Inl (Exn HTTPError (str_nat (status_code r) @ '' Server Error''))
      else Inr ())"

text \<open>\<open>tag.get(key)\<close> is \<open>None\<close> where the attribute is absent; \<open>tag.get(key, default)\<close>.\<close>

definition tag_get :: "element \<Rightarrow> string \<Rightarrow> string option" where
  "tag_get t key = (case t of Tag n a cs \<Rightarrow> a key | NavigableString s \<Rightarrow> None)"

definition tag_get_default :: "element \<Rightarrow> string \<Rightarrow> string \<Rightarrow> string" where
  "tag_get_default t key dflt = (case tag_get t key of Some v \<Rightarrow> v | None \<Rightarrow> dflt)"

text \<open>
  \<open>tag.descendants\<close> lists the nodes below a tag in document order (each child, then
  what is below it, before the next child); \<open>tag.find_all(name)\<close> keeps the tags of that
  name, in that order.
\<close>

fun descendants :: "element \<Rightarrow> element list" where
  "descendants (Tag n a cs) = concat (map (\<lambda>c. c # descendants c) cs)"
| "descendants (NavigableString s) = []"

definition is_tag_named :: "string \<Rightarrow> element \<Rightarrow> bool" where
  "is_tag_named n e = (case e of Tag m a cs \<Rightarrow> m = n | NavigableString s \<Rightarrow> False)"

definition find_all :: "element \<Rightarrow> string \<Rightarrow> element list" where
  "find_all t n = filter (is_tag_named n) (descendants t)"

text \<open>
  \<open>re.search(r"(csrf|token|xsrf|authenticity)", name, re.IGNORECASE)\<close>: some alternative
  matches at some position of \<open>name\<close>. On \<open>None\<close> in place of a string \<open>re.search\<close>
  raises \<open>TypeError\<close>.

  The pattern is a \<open>str\<close>, so the flag compares by the case mappings of Unicode: a lowercase
  letter of the pattern matches itself and its capital, \<open>i\<close> also matches U+0130 and
  U+0131 (the dotted capital and the dotless small i), \<open>s\<close> also U+017F (the long s) and
  \<open>k\<close> also U+212A (the Kelvin sign); no other character matches a letter of the
  pattern. \<open>ignorecase_forms p\<close> lists the UTF-8 texts of the characters that match the
  letter \<open>p\<close>. A match never starts or ends inside the UTF-8 text of a character, since no
  form starts with a continuation byte.
\<close>

definition csrf_keywords :: "string list" where
  "csrf_keywords = [''csrf'', ''token'', ''xsrf'', ''authenticity'']"

definition ignorecase_forms :: "char \<Rightarrow> string list" where
  "ignorecase_forms p =
     [[p], [char_upper p]] @
     (if p = CHR ''i'' then [[CHR 0xC4, CHR 0xB0], [CHR 0xC4, CHR 0xB1]] else []) @
     (if p = CHR ''s'' then [[CHR 0xC5, CHR 0xBF]] else []) @
     (if p = CHR ''k'' then [[CHR 0xE2, CHR 0x84, CHR 0xAA]] else [])"

fun match_here :: "string \<Rightarrow> string \<Rightarrow> bool" where
  "match_here [] s = True"
| "match_here (p # ps) s =
     list_ex (\<lambda>f. prefix f s \<and> match_here ps (drop (length f) s)) (ignorecase_forms p)"

fun search_from :: "string list \<Rightarrow> string \<Rightarrow> bool" where
  "search_from pats [] = list_ex (\<lambda>p. match_here p []) pats"
| "search_from pats (c # cs) =
     (list_ex (\<lambda>p. match_here p (c # cs)) pats \<or> search_from pats cs)"

definition re_search_csrf :: "string option \<Rightarrow> py_exn + bool" where
  "re_search_csrf name =
     (case name of
        None \<Rightarrow> Inl (Exn TypeError ''expected string or bytes-like object'')
      | Some s \<Rightarrow> Inr (search_from csrf_keywords s))"

section \<open>The program\<close>

text \<open>
  Logging is the program's only effect besides its exit code: every function returns
  the records that the program itself logs, in order, with its result. All of them are
  at level \<open>INFO\<close> or above, so the \<open>--verbose\<close> flag, which lowers the threshold to
  \<open>DEBUG\<close>, does not change them; the records that the libraries log are not modelled.
\<close>

datatype level = INFO | WARNING | ERROR

type_synonym log = "(level \<times> string) list"

subsection \<open>validate_url\<close>

text \<open>
  The bare \<open>except\<close> turns every exception of \<open>urlparse\<close> into \<open>False\<close>;
  \<open>all([result.scheme, result.netloc])\<close> holds when both strings are not empty.
\<close>

definition validate_url :: "external \<Rightarrow> string \<Rightarrow> bool" where
  "validate_url ext url =
     (case urlparse ext url '''' of
        Inl e \<Rightarrow> False
      | Inr result \<Rightarrow> scheme result \<noteq> '''' \<and> netloc result \<noteq> '''')"

subsection \<open>get_forms\<close>

text \<open>The body of the \<open>try\<close> statement, then the function with its two handlers.\<close>

definition get_forms_try :: "external \<Rightarrow> string \<Rightarrow> py_exn + element list" where
  "get_forms_try ext url =
     (case requests_get ext url of
        Inl e \<Rightarrow> Inl e
      | Inr response \<Rightarrow>
          (case raise_for_status response of
             Inl e \<Rightarrow> Inl e
           | Inr u \<Rightarrow>
               (case html_parser ext (content response) of
                  Inl e \<Rightarrow> Inl e
                | Inr soup \<Rightarrow> Inr (find_all soup ''form''))))"

definition get_forms :: "external \<Rightarrow> string \<Rightarrow> log \<times> element list" where
  "get_forms ext url =
     (case get_forms_try ext url of
        Inr forms \<Rightarrow> ([], forms)
      | Inl e \<Rightarrow>
          if is_RequestException e
          then ([(ERROR, ''Error fetching URL: '' @ exn_msg e)], [])
          else ([(ERROR, ''Error parsing HTML: '' @ exn_msg e)], []))"

subsection \<open>analyze_form\<close>

text \<open>
  The result dict, with its keys \<open>has_csrf_token\<close>, \<open>token_name\<close>, \<open>method\<close> (the
  field \<open>form_method\<close>) and \<open>action\<close>.
\<close>

record analysis =
  has_csrf_token :: bool
  token_name :: "string option"
  form_method :: string
  action :: string

text \<open>
  The loop over \<open>form.find_all('input')\<close> with its \<open>break\<close>; the result is
  \<open>csrf_token_field\<close>. In \<open>name and re.search(...)\<close> the search runs only where \<open>name\<close>
  is neither \<open>None\<close> nor empty.
\<close>

fun scan_inputs :: "element list \<Rightarrow> py_exn + string option" where
  "scan_inputs [] = Inr None"
| "scan_inputs (input_field # rest) =
     (if tag_get input_field ''type'' = Some ''hidden'' then
        (let name = tag_get input_field ''name''
         in if name \<noteq> None \<and> name \<noteq> Some '''' then
              (case re_search_csrf name of
                 Inl e \<Rightarrow> Inl e
               | Inr found \<Rightarrow> if found then Inr name else scan_inputs rest)
            else scan_inputs rest)
      else scan_inputs rest)"

text \<open>
  The body of the \<open>try\<close> statement. A form is a \<open>Tag\<close>, as \<open>find_all\<close> returns; on a
  \<open>NavigableString\<close>, which has no \<open>get\<close>, the first attribute access raises
  \<open>AttributeError\<close>. The resolution of the action raises where \<open>urljoin\<close> does.
\<close>

definition analyze_form_try :: "external \<Rightarrow> element \<Rightarrow> string \<Rightarrow> py_exn + analysis" where
  "analyze_form_try ext form url =
     (case form of
        NavigableString s \<Rightarrow>
          Inl (Exn AttributeError
                 ([CHR 0x27] @ ''NavigableString'' @ [CHR 0x27] @ '' object has no attribute '' @
                  [CHR 0x27] @ ''get'' @ [CHR 0x27]))
      | Tag n a cs \<Rightarrow>
         (let method0 = str_upper ext (tag_get_default form ''method'' ''GET'');
              action0 = tag_get_default form ''action'' url
          in case urljoin ext url action0 of
               Inl e \<Rightarrow> Inl e
             | Inr action1 \<Rightarrow>
                 (case scan_inputs (find_all form ''input'') of
                    Inl e \<Rightarrow> Inl e
                  | Inr csrf_token_field \<Rightarrow>
                      Inr \<lparr>has_csrf_token = (csrf_token_field \<noteq> None),
                           token_name = csrf_token_field, form_method = method0,
                           action = action1\<rparr>)))"

text \<open>\<open>None\<close> is the failure value: the handler logs the exception and returns it.\<close>

definition analyze_form :: "external \<Rightarrow> element \<Rightarrow> string \<Rightarrow> log \<times> analysis option" where
  "analyze_form ext form url =
     (case analyze_form_try ext form url of
        Inr result \<Rightarrow> ([], Some result)
      | Inl e \<Rightarrow> ([(ERROR, ''Error analyzing form: '' @ exn_msg e)], None))"

subsection \<open>main\<close>

text \<open>
  What \<open>main\<close> logs for one analysis result (a result dict has four keys, so it is
  true as a condition; \<open>None\<close> is false), then the loop over \<open>enumerate(forms)\<close>.
\<close>

definition report_result :: "nat \<Rightarrow> analysis option \<Rightarrow> log" where
  "report_result i analysis_result =
     (case analysis_result of
        Some r \<Rightarrow>
          [(INFO, ''  Method: '' @ form_method r), (INFO, ''  Action: '' @ action r)] @
          (if has_csrf_token r
           then [(INFO, ''  CSRF Token Present: Yes (Name: '' @
                        (case token_name r of Some n \<Rightarrow> n | None \<Rightarrow> ''None'') @ '')'')]
           else [(WARNING, ''  CSRF Token Present: No''),
                 (WARNING, ''  Potential CSRF vulnerability found!'')])
      | None \<Rightarrow> [(ERROR, ''  Failed to analyze form '' @ str_nat (i + 1))])"

definition report_form :: "external \<Rightarrow> string \<Rightarrow> nat \<Rightarrow> element \<Rightarrow> log" where
  "report_form ext url i form =
     [(INFO, ''Analyzing Form '' @ str_nat (i + 1) @ '':'')] @
     fst (analyze_form ext form url) @
     report_result i (snd (analyze_form ext form url))"

fun report_forms :: "external \<Rightarrow> string \<Rightarrow> nat \<Rightarrow> element list \<Rightarrow> log" where
  "report_forms ext url i [] = []"
| "report_forms ext url i (form # forms) =
     report_form ext url i form @ report_forms ext url (i + 1) forms"

text \<open>
  \<open>main\<close> after \<open>parse_args\<close> has returned \<open>args.url\<close> and \<open>args.verbose\<close>: the log and
  the exit code of the process (\<open>sys.exit(1)\<close>, \<open>sys.exit(0)\<close>, or 0 when \<open>main\<close> returns).
\<close>

definition main :: "external \<Rightarrow> string \<Rightarrow> bool \<Rightarrow> log \<times> nat" where
  "main ext url verbose =
     (if \<not> validate_url ext url then ([(ERROR, ''Invalid URL provided.'')], 1)
      else
        (let (fetch_log, forms) = get_forms ext url;
             log0 = [(INFO, ''Analyzing URL: '' @ url)] @ fetch_log
         in if forms = [] then (log0 @ [(INFO, ''No forms found on the page.'')], 0)
            else (log0 @ report_forms ext url 0 forms, 0)))"

section \<open>Vocabulary of the specification\<close>

text \<open>
  Without regard to case: \<open>casefold\<close> brings a text to lower case where that gives an
  ASCII letter, reading the UTF-8 text from the left. The capitals \<open>A\<close> to \<open>Z\<close> become
  \<open>a\<close> to \<open>z\<close>; U+0130 and U+0131 become \<open>i\<close>, U+017F becomes \<open>s\<close> and U+212A becomes
  \<open>k\<close>, which are the characters that the simple case mappings of Unicode join with an
  ASCII letter. Everything else stays, since its case does not matter for a keyword of
  ASCII letters. A name matches the heuristic when one of the four keywords is a
  substring of the name so folded. A token input is a tag whose \<open>type\<close> attribute is
  exactly \<open>hidden\<close> and whose \<open>name\<close> attribute is present and matches.
\<close>

fun casefold :: "string \<Rightarrow> string" where
  "casefold [] = []"
| "casefold (c # cs) =
     (if c = CHR 0xC4 \<and> (take 1 cs = [CHR 0xB0] \<or> take 1 cs = [CHR 0xB1])
        then CHR ''i'' # casefold (drop 1 cs)
      else if c = CHR 0xC5 \<and> take 1 cs = [CHR 0xBF]
        then CHR ''s'' # casefold (drop 1 cs)
      else if c = CHR 0xE2 \<and> take 2 cs = [CHR 0x84, CHR 0xAA]
        then CHR ''k'' # casefold (drop 2 cs)
      else char_lower c # casefold cs)"

definition name_matches :: "string \<Rightarrow> bool" where
  "name_matches n = list_ex (\<lambda>k. sublist k (casefold n)) csrf_keywords"

definition is_csrf_input :: "element \<Rightarrow> bool" where
  "is_csrf_input e =
     (tag_get e ''type'' = Some ''hidden'' \<and>
      (case tag_get e ''name'' of None \<Rightarrow> False | Some n \<Rightarrow> name_matches n))"

section \<open>Sample pages\<close>

text \<open>
  A world in which the fetch of any URL answers 200 with a page of one form, the only
  bracketed host accepted is \<open>[::1]\<close>, and the only text beyond ASCII of which the
  uppercase is known is that of \<open>STRASSE\<close>; the form has a text input, a hidden token input
  nested in a \<open>div\<close>, and a second hidden token input after it.
\<close>

definition csrf_field :: element where
  "csrf_field = Tag ''input'' [''type'' \<mapsto> ''hidden'', ''name'' \<mapsto> ''CSRF_Token''] []"

definition login_form :: element where
  "login_form =
     Tag ''form'' [''action'' \<mapsto> ''/submit'']
       [Tag ''input'' [''type'' \<mapsto> ''text'', ''name'' \<mapsto> ''user''] [],
        Tag ''div'' Map.empty [NavigableString ''Login'', csrf_field],
        Tag ''input'' [''type'' \<mapsto> ''hidden'', ''name'' \<mapsto> ''authenticity_token''] []]"

definition login_result :: analysis where
  "login_result =
     \<lparr>has_csrf_token = True, token_name = Some ''CSRF_Token'', form_method = ''GET'',
      action = ''https://a.com/submit''\<rparr>"

definition sample_external :: external where
  "sample_external =
     \<lparr>bracketed_host_invalid = (\<lambda>h. h \<noteq> ''::1''),
      nfkc_invalid = (\<lambda>n. False),
      requests_get = (\<lambda>u. Inr \<lparr>status_code = 200, content = ''<form action=/submit>''\<rparr>),
      html_parser = (\<lambda>c. Inr (Tag ''[document]'' Map.empty [login_form])),
      unicode_upper =
        (\<lambda>s. if s = ''stra'' @ [CHR 0xC3, CHR 0x9F] @ ''e'' then ''STRASSE''
             else ascii_upper s)\<rparr>"

text \<open>
  The HTTP verbs (the methods of RFC 9110, and \<open>PATCH\<close>), uppercased, as the
  specification's ``one of the uppercased HTTP verb strings'' reads.
\<close>

definition http_verbs :: "string list" where
  "http_verbs = [''GET'', ''HEAD'', ''POST'', ''PUT'', ''DELETE'', ''CONNECT'',
                 ''OPTIONS'', ''TRACE'', ''PATCH'']"

text \<open>
  Further forms: one with a hidden input that is no token; one whose action cannot be
  resolved; one with the method \<open>dialog\<close> of HTML; one whose first hidden inputs have
  no name and an empty name.
\<close>

definition plain_form :: element where
  "plain_form =
     Tag ''form'' [''method'' \<mapsto> ''post'']
       [Tag ''input'' [''type'' \<mapsto> ''hidden'', ''name'' \<mapsto> ''user_id''] []]"

definition plain_result :: analysis where
  "plain_result =
     \<lparr>has_csrf_token = False, token_name = None, form_method = ''POST'',
      action = ''https://a.com/login''\<rparr>"

definition broken_form :: element where
  "broken_form = Tag ''form'' [''action'' \<mapsto> ''//[''] [csrf_field]"

definition dialog_form :: element where
  "dialog_form = Tag ''form'' [''method'' \<mapsto> ''dialog''] [csrf_field]"

definition dialog_result :: analysis where
  "dialog_result =
     \<lparr>has_csrf_token = True, token_name = Some ''CSRF_Token'', form_method = ''DIALOG'',
      action = ''https://a.com/login''\<rparr>"

definition nameless_input :: element where
  "nameless_input = Tag ''input'' [''type'' \<mapsto> ''hidden''] []"

definition empty_name_input :: element where
  "empty_name_input = Tag ''input'' [''type'' \<mapsto> ''hidden'', ''name'' \<mapsto> ''''] []"

definition nameless_form :: element where
  "nameless_form = Tag ''form'' Map.empty [nameless_input, empty_name_input, csrf_field]"

text \<open>
  Forms with text beyond ASCII: a method with a sharp s, and a hidden input whose name
  is \<open>csrf\<close> written with a long s (U+017F).
\<close>

definition strasse_form :: element where
  "strasse_form =
     Tag ''form'' [''method'' \<mapsto> ''stra'' @ [CHR 0xC3, CHR 0x9F] @ ''e''] [csrf_field]"

definition long_s_form :: element where
  "long_s_form =
     Tag ''form'' Map.empty
       [Tag ''input''
          [''type'' \<mapsto> ''hidden'', ''name'' \<mapsto> ''c'' @ [CHR 0xC5, CHR 0xBF] @ ''rf''] []]"

text \<open>
  Further worlds: a page of three forms, the second of which fails to analyze; a server
  that answers with status 999; a fetch that times out; a server that answers with
  status 500; a parser that raises.
\<close>

definition mixed_external :: external where
  "mixed_external =
     sample_external
       \<lparr>html_parser :=
          (\<lambda>c. Inr (Tag ''[document]'' Map.empty [login_form, broken_form, plain_form]))\<rparr>"

definition throttled_external :: external where
  "throttled_external =
     sample_external
       \<lparr>requests_get := (\<lambda>u. Inr \<lparr>status_code = 999, content = ''<form action=/submit>''\<rparr>)\<rparr>"

definition offline_external :: external where
  "offline_external =
     sample_external\<lparr>requests_get := (\<lambda>u. Inl (Exn Timeout ''Read timed out.''))\<rparr>"

definition failing_external :: external where
  "failing_external =
     sample_external
       \<lparr>requests_get := (\<lambda>u. Inr \<lparr>status_code = 500, content = ''<form action=/submit>''\<rparr>)\<rparr>"

definition unparsable_external :: external where
  "unparsable_external =
     sample_external
       \<lparr>html_parser := (\<lambda>c. Inl (Exn OtherException ''maximum recursion depth exceeded''))\<rparr>"











section \<open>Reference resolution in RFC 3986\<close>

text \<open>
  The standard rules for joining a reference to a base URL are those of RFC 3986,
  section 5.2; they are written here after the text of the RFC, not after the code.
  \<open>remove_dot_segments\<close> is the algorithm of section 5.2.4 with its input buffer and its
  output buffer, in the order of its steps 2A to 2E: a leading \<open>../\<close> or \<open>./\<close> is removed;
  a leading \<open>/./\<close>, or \<open>/.\<close> as the whole input, becomes \<open>/\<close>; a leading \<open>/../\<close>, or
  \<open>/..\<close> as the whole input, becomes \<open>/\<close> and the last segment of the output goes, with
  the \<open>/\<close> before it; an input that is \<open>.\<close> or \<open>..\<close> is removed; otherwise the first
  segment of the input, with its leading \<open>/\<close> if it has one, moves to the end of the
  output.
\<close>

definition remove_last_segment :: "string \<Rightarrow> string" where
  "remove_last_segment out = rev (drop 1 (dropWhile (\<lambda>c. c \<noteq> CHR ''/'') (rev out)))"

definition first_segment :: "string \<Rightarrow> string" where
  "first_segment inp = take 1 inp @ takeWhile (\<lambda>c. c \<noteq> CHR ''/'') (drop 1 inp)"

function remove_dot_segments_loop :: "string \<Rightarrow> string \<Rightarrow> string" where
  "remove_dot_segments_loop inp out =
     (if inp = '''' then out
      else if prefix ''../'' inp then remove_dot_segments_loop (drop 3 inp) out
      else if prefix ''./'' inp then remove_dot_segments_loop (drop 2 inp) out
      else if prefix ''/./'' inp then remove_dot_segments_loop (drop 2 inp) out
      else if inp = ''/.'' then remove_dot_segments_loop ''/'' out
      else if prefix ''/../'' inp
        then remove_dot_segments_loop (drop 3 inp) (remove_last_segment out)
      else if inp = ''/..'' then remove_dot_segments_loop ''/'' (remove_last_segment out)
      else if inp = ''.'' \<or> inp = ''..'' then remove_dot_segments_loop '''' out
      else remove_dot_segments_loop (drop (length (first_segment inp)) inp)
             (out @ first_segment inp))"
  by pat_completeness auto
termination
  by (relation "measure (\<lambda>(inp, out). length inp)") (auto simp: first_segment_def)

declare remove_dot_segments_loop.simps [simp del]

definition remove_dot_segments :: "string \<Rightarrow> string" where
  "remove_dot_segments p = remove_dot_segments_loop p ''''"

text \<open>
  Section 5.2.3, for a base with a network location: against an empty base path the
  merged path is \<open>/\<close> and the reference's path; otherwise it is the base path up to and
  with its last \<open>/\<close>, and the reference's path. Section 5.2.2 for a reference with no
  network location, and with no scheme or the base's scheme, on the six parts of
  \<open>urlparse\<close>: scheme and network location are the base's; an empty reference path (with
  no parameters) takes the base's path and parameters, and the base's query unless the
  reference has its own; any other path is merged, unless it starts with \<open>/\<close>, and its
  dot segments are removed; the fragment is the reference's.
\<close>

definition merge_paths :: "string \<Rightarrow> string \<Rightarrow> string" where
  "merge_paths bpath rpath =
     (if bpath = '''' then ''/'' @ rpath
      else rev (dropWhile (\<lambda>c. c \<noteq> CHR ''/'') (rev bpath)) @ rpath)"

definition target_path :: "string \<Rightarrow> string \<Rightarrow> string" where
  "target_path bpath rpath =
     (if prefix ''/'' rpath then remove_dot_segments rpath
      else remove_dot_segments (merge_paths bpath rpath))"



text \<open>
  A path written from its segments, each after a slash; and what \<open>urlunsplit\<close> does to
  a path that follows a network location.
\<close>

definition slashes :: "string list \<Rightarrow> string" where
  "slashes segs = concat (map (\<lambda>s. CHR ''/'' # s) segs)"



section \<open>Properties\<close>

subsection \<open>Letters and their case\<close>

lemma letters_disjoint: "c \<in> set ascii_lowercase \<Longrightarrow> c \<notin> set ascii_uppercase"
  by (auto simp: ascii_lowercase_def ascii_uppercase_def)

lemma char_lower_id: "c \<notin> set ascii_uppercase \<Longrightarrow> char_lower c = c"
proof -
  assume "c \<notin> set ascii_uppercase"
  then have "map_of (zip ascii_uppercase ascii_lowercase) c = None"
    by (simp add: map_of_eq_None_iff ascii_lowercase_def ascii_uppercase_def)
  then show ?thesis
    by (simp add: char_lower_def)
qed

lemma char_upper_id: "c \<notin> set ascii_lowercase \<Longrightarrow> char_upper c = c"
proof -
  assume "c \<notin> set ascii_lowercase"
  then have "map_of (zip ascii_lowercase ascii_uppercase) c = None"
    by (simp add: map_of_eq_None_iff ascii_lowercase_def ascii_uppercase_def)
  then show ?thesis
    by (simp add: char_upper_def)
qed

lemma char_lower_of_upper:
  "c \<in> set ascii_uppercase \<Longrightarrow> char_lower c \<in> set ascii_lowercase \<and> char_upper (char_lower c) = c"
  unfolding ascii_uppercase_def
  apply (simp only: set_simps insert_iff empty_iff)
  apply (elim disjE)
  apply (simp_all add: char_lower_def char_upper_def ascii_lowercase_def ascii_uppercase_def)
  done

lemma char_upper_of_lower:
  "c \<in> set ascii_lowercase \<Longrightarrow> char_upper c \<in> set ascii_uppercase \<and> char_lower (char_upper c) = c"
  unfolding ascii_lowercase_def
  apply (simp only: set_simps insert_iff empty_iff)
  apply (elim disjE)
  apply (simp_all add: char_lower_def char_upper_def ascii_lowercase_def ascii_uppercase_def)
  done

lemma char_lower_eq_iff:
  assumes "l \<in> set ascii_lowercase"
  shows "char_lower c = l \<longleftrightarrow> c = l \<or> c = char_upper l"
proof (cases "c \<in> set ascii_uppercase")
  case True
  show ?thesis
  proof
    assume "char_lower c = l"
    with char_lower_of_upper [OF True] show "c = l \<or> c = char_upper l"
      by auto
  next
    assume "c = l \<or> c = char_upper l"
    with True letters_disjoint [OF assms] have "c = char_upper l" by auto
    with char_upper_of_lower [OF assms] show "char_lower c = l" by simp
  qed
next
  case False
  with char_upper_of_lower [OF assms] show ?thesis
    by (auto simp: char_lower_id)
qed


lemma char_upper_not_lower: "char_upper c \<notin> set ascii_lowercase"
proof (cases "c \<in> set ascii_lowercase")
  case True
  with char_upper_of_lower [OF True] letters_disjoint show ?thesis by blast
next
  case False
  then show ?thesis by (simp add: char_upper_id)
qed

lemma prefix_single: "prefix [b] cs \<longleftrightarrow> take 1 cs = [b]"
  by (cases cs) auto

lemma prefix_pair: "prefix [a, b] cs \<longleftrightarrow> take 2 cs = [a, b]"
proof (cases cs)
  case Nil
  then show ?thesis by simp
next
  case (Cons x xs)
  then show ?thesis by (cases xs) auto
qed

lemma letter_not_special:
  assumes "c \<in> set ascii_lowercase \<or> c \<in> set ascii_uppercase"
  shows "c \<noteq> CHR 0xC4" "c \<noteq> CHR 0xC5" "c \<noteq> CHR 0xE2"
    "c \<noteq> CHR 0xB0" "c \<noteq> CHR 0xB1" "c \<noteq> CHR 0xBF" "c \<noteq> CHR 0x84" "c \<noteq> CHR 0xAA"
  using assms by (auto simp: ascii_lowercase_def ascii_uppercase_def)


lemma prefix_triple: "prefix [a, b, c] cs \<longleftrightarrow> take 3 cs = [a, b, c]"
proof (cases cs)
  case Nil
  then show ?thesis by simp
next
  case (Cons x xs)
  then show ?thesis by (auto simp: prefix_pair)
qed

lemma ignorecase_forms_ex:
  "(\<exists>f \<in> set (ignorecase_forms l). P f) \<longleftrightarrow>
     P [l] \<or> P [char_upper l] \<or>
     (l = CHR ''i'' \<and> (P [CHR 0xC4, CHR 0xB0] \<or> P [CHR 0xC4, CHR 0xB1])) \<or>
     (l = CHR ''s'' \<and> P [CHR 0xC5, CHR 0xBF]) \<or>
     (l = CHR ''k'' \<and> P [CHR 0xE2, CHR 0x84, CHR 0xAA])"
  by (auto simp: ignorecase_forms_def)


lemma casefold_Cons_iff:
  assumes "l \<in> set ascii_lowercase"
  shows "casefold s = l # t \<longleftrightarrow>
         (\<exists>f \<in> set (ignorecase_forms l). prefix f s \<and> t = casefold (drop (length f) s))"
proof (cases s)
  case Nil
  show ?thesis unfolding Nil ignorecase_forms_ex by simp
next
  case (Cons c cs)
  from assms have u: "char_upper l \<in> set ascii_uppercase"
    by (simp add: char_upper_of_lower)
  from assms letter_not_special [of l]
  have l: "l \<noteq> CHR 0xC4" "l \<noteq> CHR 0xC5" "l \<noteq> CHR 0xE2"
    by simp_all
  from u letter_not_special [of "char_upper l"]
  have ul: "char_upper l \<noteq> CHR 0xC4" "char_upper l \<noteq> CHR 0xC5" "char_upper l \<noteq> CHR 0xE2"
    by simp_all
  have rhs: "(\<exists>f \<in> set (ignorecase_forms l). prefix f s \<and> t = casefold (drop (length f) s)) \<longleftrightarrow>
     (c = l \<and> t = casefold cs) \<or> (c = char_upper l \<and> t = casefold cs) \<or>
     (l = CHR ''i'' \<and> c = CHR 0xC4 \<and> (take 1 cs = [CHR 0xB0] \<or> take 1 cs = [CHR 0xB1]) \<and>
        t = casefold (drop 1 cs)) \<or>
     (l = CHR ''s'' \<and> c = CHR 0xC5 \<and> take 1 cs = [CHR 0xBF] \<and> t = casefold (drop 1 cs)) \<or>
     (l = CHR ''k'' \<and> c = CHR 0xE2 \<and> take 2 cs = [CHR 0x84, CHR 0xAA] \<and>
        t = casefold (drop 2 cs))"
    unfolding ignorecase_forms_ex Cons
    by (auto simp: prefix_single prefix_pair numeral_2_eq_2)
  consider (i) "c = CHR 0xC4" "take 1 cs = [CHR 0xB0] \<or> take 1 cs = [CHR 0xB1]"
    | (s) "c = CHR 0xC5" "take 1 cs = [CHR 0xBF]"
    | (k) "c = CHR 0xE2" "take 2 cs = [CHR 0x84, CHR 0xAA]"
    | (other) "\<not> (c = CHR 0xC4 \<and> (take 1 cs = [CHR 0xB0] \<or> take 1 cs = [CHR 0xB1]))"
        "\<not> (c = CHR 0xC5 \<and> take 1 cs = [CHR 0xBF])"
        "\<not> (c = CHR 0xE2 \<and> take 2 cs = [CHR 0x84, CHR 0xAA])"
    by blast
  then show ?thesis
  proof cases
    case i
    then have "casefold s = CHR ''i'' # casefold (drop 1 cs)"
      using Cons by simp
    with i l ul show ?thesis
      unfolding rhs by auto
  next
    case s
    then have "casefold (c # cs) = CHR ''s'' # casefold (drop 1 cs)"
      by simp
    with s l ul Cons show ?thesis
      unfolding rhs by auto
  next
    case k
    then have "casefold (c # cs) = CHR ''k'' # casefold (drop 2 cs)"
      by simp
    with k l ul Cons show ?thesis
      unfolding rhs by auto
  next
    case other
    then have "casefold (c # cs) = char_lower c # casefold cs"
      by auto
    with other Cons show ?thesis
      unfolding rhs by (auto simp: char_lower_eq_iff [OF assms])
  qed
qed


lemma match_here_prefix:
  assumes "set p \<subseteq> set ascii_lowercase"
  shows "match_here p s \<longleftrightarrow> prefix p (casefold s)"
  using assms
proof (induction p arbitrary: s)
  case Nil
  show ?case by simp
next
  case (Cons l ps)
  then have l: "l \<in> set ascii_lowercase" and ps: "set ps \<subseteq> set ascii_lowercase"
    by simp_all
  have "match_here (l # ps) s \<longleftrightarrow>
        (\<exists>f \<in> set (ignorecase_forms l). prefix f s \<and> prefix ps (casefold (drop (length f) s)))"
    by (simp add: list_ex_iff Cons.IH [OF ps])
  also have "\<dots> \<longleftrightarrow> (\<exists>t. casefold s = l # t \<and> prefix ps t)"
    unfolding casefold_Cons_iff [OF l] by blast
  also have "\<dots> \<longleftrightarrow> prefix (l # ps) (casefold s)"
    by (cases "casefold s") auto
  finally show ?case .
qed

text \<open>No match starts at a continuation byte.\<close>

lemma match_here_continuation:
  assumes "set p \<subseteq> set ascii_lowercase" and "p \<noteq> []"
    and "b \<in> {CHR 0xB0, CHR 0xB1, CHR 0xBF, CHR 0x84, CHR 0xAA}"
  shows "\<not> match_here p (b # r)"
proof -
  from assms(2) obtain l ps where p: "p = l # ps" by (cases p) auto
  with assms(1) have l: "l \<in> set ascii_lowercase" by simp
  then have u: "char_upper l \<in> set ascii_uppercase"
    by (simp add: char_upper_of_lower)
  from l letter_not_special [of l] u letter_not_special [of "char_upper l"] assms(3)
  have "b \<noteq> l" "b \<noteq> char_upper l" by auto
  moreover from assms(3) have "b \<noteq> CHR 0xC4" "b \<noteq> CHR 0xC5" "b \<noteq> CHR 0xE2" by auto
  ultimately have "\<not> (\<exists>f \<in> set (ignorecase_forms l). prefix f (b # r) \<and>
                     match_here ps (drop (length f) (b # r)))"
    unfolding ignorecase_forms_ex by auto
  then show ?thesis
    by (simp add: p list_ex_iff)
qed


lemma search_from_Cons:
  assumes "\<forall>p \<in> set pats. set p \<subseteq> set ascii_lowercase \<and> p \<noteq> []"
  shows "search_from pats (c # cs) \<longleftrightarrow>
         (\<exists>p \<in> set pats. prefix p (casefold (c # cs))) \<or> search_from pats cs"
  using assms by (auto simp: list_ex_iff match_here_prefix)

lemma search_from_continuation:
  assumes "\<forall>p \<in> set pats. set p \<subseteq> set ascii_lowercase \<and> p \<noteq> []"
    and "b \<in> {CHR 0xB0, CHR 0xB1, CHR 0xBF, CHR 0x84, CHR 0xAA}"
  shows "search_from pats (b # r) = search_from pats r"
  using assms by (auto simp: list_ex_iff match_here_continuation)

lemma search_from_sublist:
  assumes "\<forall>p \<in> set pats. set p \<subseteq> set ascii_lowercase \<and> p \<noteq> []"
  shows "search_from pats s \<longleftrightarrow> (\<exists>p \<in> set pats. sublist p (casefold s))"
proof (induction s rule: casefold.induct)
  case 1
  from assms show ?case
    by (auto simp: list_ex_iff match_here_prefix)
next
  case (2 c cs)
  note step = search_from_Cons [OF assms, of c cs]
  consider (i) "c = CHR 0xC4" "take 1 cs = [CHR 0xB0] \<or> take 1 cs = [CHR 0xB1]"
    | (s) "c = CHR 0xC5" "take 1 cs = [CHR 0xBF]"
        "\<not> (c = CHR 0xC4 \<and> (take 1 cs = [CHR 0xB0] \<or> take 1 cs = [CHR 0xB1]))"
    | (k) "c = CHR 0xE2" "take 2 cs = [CHR 0x84, CHR 0xAA]"
        "\<not> (c = CHR 0xC4 \<and> (take 1 cs = [CHR 0xB0] \<or> take 1 cs = [CHR 0xB1]))"
        "\<not> (c = CHR 0xC5 \<and> take 1 cs = [CHR 0xBF])"
    | (other) "\<not> (c = CHR 0xC4 \<and> (take 1 cs = [CHR 0xB0] \<or> take 1 cs = [CHR 0xB1]))"
        "\<not> (c = CHR 0xC5 \<and> take 1 cs = [CHR 0xBF])"
        "\<not> (c = CHR 0xE2 \<and> take 2 cs = [CHR 0x84, CHR 0xAA])"
    by blast
  then show ?case
  proof cases
    case i
    then obtain b r where cs: "cs = b # r" "b = CHR 0xB0 \<or> b = CHR 0xB1"
      by (cases cs) auto
    from i have cf: "casefold (c # cs) = CHR ''i'' # casefold (drop 1 cs)"
      by simp
    from cs have "search_from pats cs = search_from pats (drop 1 cs)"
      using search_from_continuation [OF assms, of b r] by auto
    with "2.IH"(1) [OF conjI [OF i]] step show ?thesis
      unfolding cf sublist_Cons_right by auto
  next
    case s
    then obtain r where cs: "cs = CHR 0xBF # r"
      by (cases cs) auto
    from s have cf: "casefold (c # cs) = CHR ''s'' # casefold (drop 1 cs)"
      by simp
    from cs have "search_from pats cs = search_from pats (drop 1 cs)"
      using search_from_continuation [OF assms, of "CHR 0xBF" r] by auto
    with "2.IH"(2) [OF s(3) conjI [OF s(1,2)]] step show ?thesis
      unfolding cf sublist_Cons_right by auto
  next
    case k
    then obtain r where cs: "cs = CHR 0x84 # CHR 0xAA # r"
      by (cases cs; cases "tl cs") auto
    from k have cf: "casefold (c # cs) = CHR ''k'' # casefold (drop 2 cs)"
      by simp
    have "search_from pats cs = search_from pats (CHR 0xAA # r)"
      unfolding cs using search_from_continuation [OF assms, of "CHR 0x84"] by blast
    also have "\<dots> = search_from pats r"
      using search_from_continuation [OF assms, of "CHR 0xAA"] by blast
    finally have "search_from pats cs = search_from pats (drop 2 cs)"
      by (simp add: cs)
    with "2.IH"(3) [OF k(3,4) conjI [OF k(1,2)]] step show ?thesis
      unfolding cf sublist_Cons_right by auto
  next
    case other
    then have cf: "casefold (c # cs) = char_lower c # casefold cs"
      by auto
    with "2.IH"(4) [OF other] step show ?thesis
      unfolding cf sublist_Cons_right by auto
  qed
qed

lemma csrf_keywords_letters:
  "\<forall>p \<in> set csrf_keywords. set p \<subseteq> set ascii_lowercase \<and> p \<noteq> []"
  by (simp add: csrf_keywords_def ascii_lowercase_def)

text \<open>
  The search of the program finds a keyword exactly where the specification's reading
  does: where a keyword is a substring of the folded name.
\<close>

lemma search_from_name_matches: "search_from csrf_keywords s = name_matches s"
  unfolding name_matches_def list_ex_iff
  by (rule search_from_sublist [OF csrf_keywords_letters])

lemma name_matches_Nil: "\<not> name_matches []"
  by (simp add: name_matches_def csrf_keywords_def)

text \<open>The loop returns the name of the first token input, and never raises.\<close>

lemma scan_inputs_find:
  "scan_inputs xs =
     Inr (case find is_csrf_input xs of None \<Rightarrow> None | Some e \<Rightarrow> tag_get e ''name'')"
proof (induction xs)
  case Nil
  show ?case by simp
next
  case (Cons x xs)
  show ?case
    using Cons.IH
    by (auto simp: is_csrf_input_def re_search_csrf_def search_from_name_matches
          name_matches_Nil Let_def split: option.splits)
qed

subsection \<open>The result of analyze_form\<close>

lemma analyze_form_try_eq:
  "analyze_form_try ext form url =
     (case form of
        NavigableString s \<Rightarrow>
          Inl (Exn AttributeError
                 ([CHR 0x27] @ ''NavigableString'' @ [CHR 0x27] @ '' object has no attribute '' @
                  [CHR 0x27] @ ''get'' @ [CHR 0x27]))
      | Tag n a cs \<Rightarrow>
         (case urljoin ext url (tag_get_default form ''action'' url) of
            Inl e \<Rightarrow> Inl e
          | Inr a \<Rightarrow>
              Inr \<lparr>has_csrf_token = (find is_csrf_input (find_all form ''input'') \<noteq> None),
                   token_name = (case find is_csrf_input (find_all form ''input'') of
                                   None \<Rightarrow> None | Some e \<Rightarrow> tag_get e ''name''),
                   form_method = str_upper ext (tag_get_default form ''method'' ''GET''),
                   action = a\<rparr>))"
proof -
  have "find is_csrf_input xs = Some e \<Longrightarrow> tag_get e ''name'' \<noteq> None" for xs e
    by (auto simp: find_Some_iff is_csrf_input_def split: option.splits)
  then show ?thesis
    by (auto simp: analyze_form_try_def scan_inputs_find Let_def
          split: sum.splits option.splits element.splits)
qed

lemma analyze_form_Some:
  "analyze_form ext form url = (lg, Some r) \<longleftrightarrow> lg = [] \<and> analyze_form_try ext form url = Inr r"
  by (auto simp: analyze_form_def split: sum.splits)

lemma analyze_form_None:
  "snd (analyze_form ext form url) = None \<longleftrightarrow> (\<exists>e. analyze_form_try ext form url = Inl e)"
  by (auto simp: analyze_form_def split: sum.splits)

lemma login_form_result:
  "analyze_form sample_external login_form ''https://a.com/login'' = ([], Some login_result)"
  by code_simp

text \<open>
  C3. Whenever \<open>analyze_form\<close> returns a result, \<open>has_csrf_token\<close> is true if and only if
  \<open>token_name\<close> is present: no result has one without the other.
\<close>

theorem token_present_iff_name:
  assumes "analyze_form ext form url = (lg, Some r)"
  shows "has_csrf_token r \<longleftrightarrow> token_name r \<noteq> None"
  using assms
  by (auto simp: analyze_form_Some analyze_form_try_def Let_def split: sum.splits element.splits)

theorem token_present_iff_name_witness:
  "analyze_form sample_external login_form ''https://a.com/login'' = ([], Some login_result) \<and>
   (has_csrf_token login_result \<longleftrightarrow> token_name login_result \<noteq> None)"
  using token_present_iff_name [OF login_form_result] login_form_result by blast

lemma long_s_form_result:
  "analyze_form sample_external long_s_form ''https://a.com/login'' =
     ([], Some \<lparr>has_csrf_token = True,
               token_name = Some (''c'' @ [CHR 0xC5, CHR 0xBF] @ ''rf''),
               form_method = ''GET'', action = ''https://a.com/login''\<rparr>)"
  by code_simp

lemma plain_form_result:
  "analyze_form sample_external plain_form ''https://a.com/login'' = ([], Some plain_result)"
  by code_simp

text \<open>
  C1, as amended. Whenever \<open>analyze_form\<close> returns a result for a form: if at least one
  of the form's descendant inputs, taken in document order, is a token input (\<open>type\<close>
  exactly \<open>hidden\<close>, \<open>name\<close> present and containing one of the keywords without regard
  to case), then \<open>has_csrf_token\<close> is true and \<open>token_name\<close> is the name of the first
  such input, whatever follows it; if none is, \<open>has_csrf_token\<close> is false and
  \<open>token_name\<close> is absent. The claim as stated speaks of every form, but a form whose
  action does not resolve has no result at all, whatever its inputs are: see the
  counterexample.
\<close>

theorem first_matching_input_wins:
  assumes "analyze_form ext form url = (lg, Some r)"
  shows "((\<exists>e \<in> set (find_all form ''input''). is_csrf_input e) \<longrightarrow>
            has_csrf_token r \<and>
            (\<exists>i < length (find_all form ''input'').
               is_csrf_input (find_all form ''input'' ! i) \<and>
               (\<forall>j < i. \<not> is_csrf_input (find_all form ''input'' ! j)) \<and>
               token_name r = tag_get (find_all form ''input'' ! i) ''name'' \<and>
               token_name r \<noteq> None)) \<and>
         ((\<forall>e \<in> set (find_all form ''input''). \<not> is_csrf_input e) \<longrightarrow>
            \<not> has_csrf_token r \<and> token_name r = None)"
proof -
  let ?xs = "find_all form ''input''"
  from assms obtain a where r:
    "r = \<lparr>has_csrf_token = (find is_csrf_input ?xs \<noteq> None),
          token_name = (case find is_csrf_input ?xs of None \<Rightarrow> None | Some e \<Rightarrow> tag_get e ''name''),
          form_method = str_upper ext (tag_get_default form ''method'' ''GET''),
          action = a\<rparr>"
    by (auto simp: analyze_form_Some analyze_form_try_eq split: sum.splits element.splits)
  have none: "(\<forall>e \<in> set ?xs. \<not> is_csrf_input e) \<longrightarrow> \<not> has_csrf_token r \<and> token_name r = None"
  proof
    assume "\<forall>e \<in> set ?xs. \<not> is_csrf_input e"
    then have "find is_csrf_input ?xs = None"
      by (simp add: find_None_iff)
    then show "\<not> has_csrf_token r \<and> token_name r = None"
      by (simp add: r)
  qed
  have some: "has_csrf_token r \<and>
            (\<exists>i < length ?xs. is_csrf_input (?xs ! i) \<and> (\<forall>j < i. \<not> is_csrf_input (?xs ! j)) \<and>
               token_name r = tag_get (?xs ! i) ''name'' \<and> token_name r \<noteq> None)"
    if ex: "\<exists>e \<in> set ?xs. is_csrf_input e"
  proof -
    from ex obtain e where e: "find is_csrf_input ?xs = Some e"
      by (cases "find is_csrf_input ?xs") (auto simp: find_None_iff)
    then obtain i where i: "i < length ?xs" "is_csrf_input (?xs ! i)" "e = ?xs ! i"
      "\<forall>j < i. \<not> is_csrf_input (?xs ! j)"
      by (auto simp: find_Some_iff)
    have "tag_get e ''name'' \<noteq> None"
      using i(2,3) by (auto simp: is_csrf_input_def split: option.splits)
    with e i show ?thesis
      by (auto simp: r)
  qed
  from none some show ?thesis by blast
qed

theorem first_matching_input_wins_witness:
  "list_ex is_csrf_input (find_all login_form ''input'') \<and>
   has_csrf_token login_result \<and> token_name login_result = Some ''CSRF_Token'' \<and>
   \<not> list_ex is_csrf_input (find_all plain_form ''input'') \<and>
   \<not> has_csrf_token plain_result \<and> token_name plain_result = None \<and>
   list_ex is_csrf_input (find_all long_s_form ''input'') \<and>
   has_csrf_token
     \<lparr>has_csrf_token = True, token_name = Some (''c'' @ [CHR 0xC5, CHR 0xBF] @ ''rf''),
      form_method = ''GET'', action = ''https://a.com/login''\<rparr>"
proof -
  have a: "list_ex is_csrf_input (find_all login_form ''input'')"
    by code_simp
  have b: "\<not> list_ex is_csrf_input (find_all plain_form ''input'')"
    by code_simp
  have l: "list_ex is_csrf_input (find_all long_s_form ''input'')"
    by code_simp
  from first_matching_input_wins [OF login_form_result] a
  have c: "has_csrf_token login_result"
    unfolding list_ex_iff by blast
  from first_matching_input_wins [OF plain_form_result] b
  have d: "\<not> has_csrf_token plain_result \<and> token_name plain_result = None"
    unfolding list_ex_iff by blast
  have e: "token_name login_result = Some ''CSRF_Token''"
    by (simp add: login_result_def)
  from first_matching_input_wins [OF long_s_form_result] l
  have f: "has_csrf_token
     \<lparr>has_csrf_token = True, token_name = Some (''c'' @ [CHR 0xC5, CHR 0xBF] @ ''rf''),
      form_method = ''GET'', action = ''https://a.com/login''\<rparr>"
    unfolding list_ex_iff by blast
  from a b c d e l f show ?thesis by blast
qed

text \<open>
  The form \<open>broken_form\<close> has a hidden input named \<open>CSRF_Token\<close>, and its action \<open>//[\<close>
  makes \<open>urljoin\<close> raise \<open>ValueError\<close>: \<open>analyze_form\<close> returns \<open>None\<close>, not a result with
  \<open>has_csrf_token\<close> true.
\<close>

theorem first_matching_input_counterexample:
  "list_ex is_csrf_input (find_all broken_form ''input'') \<and>
   analyze_form sample_external broken_form ''https://a.com/login'' =
     ([(ERROR, ''Error analyzing form: Invalid IPv6 URL'')], None)"
  by code_simp

text \<open>
  C10. Whenever \<open>analyze_form\<close> returns a result with \<open>has_csrf_token\<close> true, the
  \<open>token_name\<close> it reports contains \<open>csrf\<close>, \<open>token\<close>, \<open>xsrf\<close> or \<open>authenticity\<close> as a
  substring, letters compared without case.
\<close>

theorem token_name_matches_pattern:
  assumes "analyze_form ext form url = (lg, Some r)" and "has_csrf_token r"
  shows "\<exists>n. token_name r = Some n \<and> (\<exists>k \<in> set csrf_keywords. sublist k (casefold n))"
proof -
  let ?xs = "find_all form ''input''"
  from assms(1) obtain a where r:
    "r = \<lparr>has_csrf_token = (find is_csrf_input ?xs \<noteq> None),
          token_name = (case find is_csrf_input ?xs of None \<Rightarrow> None | Some e \<Rightarrow> tag_get e ''name''),
          form_method = str_upper ext (tag_get_default form ''method'' ''GET''),
          action = a\<rparr>"
    by (auto simp: analyze_form_Some analyze_form_try_eq split: sum.splits element.splits)
  from assms(2) obtain e where e: "find is_csrf_input ?xs = Some e"
    by (auto simp: r)
  then have "is_csrf_input e"
    by (auto simp: find_Some_iff)
  then obtain n where n: "tag_get e ''name'' = Some n" "name_matches n"
    by (auto simp: is_csrf_input_def split: option.splits)
  from n(2) have "\<exists>k \<in> set csrf_keywords. sublist k (casefold n)"
    by (simp add: name_matches_def list_ex_iff)
  with e n(1) show ?thesis
    by (simp add: r)
qed

theorem token_name_matches_pattern_witness:
  "has_csrf_token login_result \<and>
   (\<exists>n. token_name login_result = Some n \<and>
        (\<exists>k \<in> set csrf_keywords. sublist k (casefold n))) \<and>
   analyze_form sample_external long_s_form ''https://a.com/login'' =
     ([], Some \<lparr>has_csrf_token = True,
               token_name = Some (''c'' @ [CHR 0xC5, CHR 0xBF] @ ''rf''),
               form_method = ''GET'', action = ''https://a.com/login''\<rparr>) \<and>
   casefold (''c'' @ [CHR 0xC5, CHR 0xBF] @ ''rf'') = ''csrf'' \<and>
   (\<exists>k \<in> set csrf_keywords. sublist k (casefold (''c'' @ [CHR 0xC5, CHR 0xBF] @ ''rf'')))"
proof -
  have h: "has_csrf_token login_result"
    by (simp add: login_result_def)
  have c: "casefold (''c'' @ [CHR 0xC5, CHR 0xBF] @ ''rf'') = ''csrf''"
    by code_simp
  from token_name_matches_pattern [OF long_s_form_result]
  have "\<exists>k \<in> set csrf_keywords. sublist k (casefold (''c'' @ [CHR 0xC5, CHR 0xBF] @ ''rf''))"
    by simp
  with token_name_matches_pattern [OF login_form_result h] h c long_s_form_result
  show ?thesis by blast
qed

lemma scan_inputs_skip:
  assumes "tag_get inp ''name'' = None \<or> tag_get inp ''name'' = Some ''''"
  shows "scan_inputs (before @ inp # after) = scan_inputs (before @ after)"
proof -
  have "\<not> is_csrf_input inp"
    using assms by (auto simp: is_csrf_input_def name_matches_Nil)
  then have "find is_csrf_input (before @ inp # after) = find is_csrf_input (before @ after)"
    by (induction before) auto
  then show ?thesis
    by (simp add: scan_inputs_find)
qed

text \<open>
  C9. A descendant input of a form whose \<open>type\<close> is \<open>hidden\<close> and whose \<open>name\<close> is absent
  or empty is skipped: the scan gives what it gives without that input, so it goes on
  with the later inputs; the scan returns (it never raises, although \<open>re.search\<close> on
  \<open>None\<close> would) and never returns the empty name; \<open>analyze_form\<close> enters its failure
  branch only when the URL resolution raises; and the \<open>token_name\<close> of a result is what
  the scan of the other inputs finds.
\<close>

theorem nameless_hidden_input_skipped:
  assumes "tag_get inp ''type'' = Some ''hidden''"
    and "tag_get inp ''name'' = None \<or> tag_get inp ''name'' = Some ''''"
    and "find_all form ''input'' = before @ inp # after"
  shows "scan_inputs (find_all form ''input'') = scan_inputs (before @ after) \<and>
         (\<exists>found. scan_inputs (find_all form ''input'') = Inr found \<and> found \<noteq> Some '''') \<and>
         (\<forall>e. analyze_form_try ext form url = Inl e \<longrightarrow>
              urljoin ext url (tag_get_default form ''action'' url) = Inl e) \<and>
         (\<forall>lg r. analyze_form ext form url = (lg, Some r) \<longrightarrow>
              scan_inputs (before @ after) = Inr (token_name r) \<and> token_name r \<noteq> Some '''')"
proof -
  have skip: "scan_inputs (find_all form ''input'') = scan_inputs (before @ after)"
    using assms(2,3) by (simp add: scan_inputs_skip)
  have nonempty: "found \<noteq> Some ''''" if "scan_inputs xs = Inr found" for xs found
  proof (cases "find is_csrf_input xs")
    case None
    with that show ?thesis by (simp add: scan_inputs_find)
  next
    case (Some e)
    then have "is_csrf_input e" by (auto simp: find_Some_iff)
    with Some that show ?thesis
      by (auto simp: scan_inputs_find is_csrf_input_def name_matches_Nil split: option.splits)
  qed
  have total: "\<exists>found. scan_inputs (find_all form ''input'') = Inr found \<and> found \<noteq> Some ''''"
    using nonempty by (simp add: scan_inputs_find)
  from assms(3) obtain n a cs where "form = Tag n a cs"
    by (cases form) (auto simp: find_all_def)
  then have fail: "\<forall>e. analyze_form_try ext form url = Inl e \<longrightarrow>
              urljoin ext url (tag_get_default form ''action'' url) = Inl e"
    by (auto simp: analyze_form_try_eq split: sum.splits)
  have res: "\<forall>lg r. analyze_form ext form url = (lg, Some r) \<longrightarrow>
              scan_inputs (before @ after) = Inr (token_name r) \<and> token_name r \<noteq> Some ''''"
  proof (intro allI impI)
    fix lg r
    assume "analyze_form ext form url = (lg, Some r)"
    then have "scan_inputs (find_all form ''input'') = Inr (token_name r)"
      by (auto simp: analyze_form_Some analyze_form_try_def Let_def split: sum.splits element.splits)
    with skip nonempty show "scan_inputs (before @ after) = Inr (token_name r) \<and> token_name r \<noteq> Some ''''"
      by metis
  qed
  from skip total fail res show ?thesis by blast
qed


theorem nameless_hidden_input_skipped_witness:
  "tag_get nameless_input ''type'' = Some ''hidden'' \<and>
   tag_get nameless_input ''name'' = None \<and>
   find_all nameless_form ''input'' = [] @ nameless_input # [empty_name_input, csrf_field] \<and>
   scan_inputs (find_all nameless_form ''input'') =
     scan_inputs ([] @ [empty_name_input, csrf_field]) \<and>
   scan_inputs [empty_name_input, csrf_field] = Inr (Some ''CSRF_Token'')"
proof -
  have h1: "tag_get nameless_input ''type'' = Some ''hidden''"
    by (simp add: nameless_input_def tag_get_def)
  have h2: "tag_get nameless_input ''name'' = None \<or> tag_get nameless_input ''name'' = Some ''''"
    by (simp add: nameless_input_def tag_get_def)
  have h3: "find_all nameless_form ''input'' = [] @ nameless_input # [empty_name_input, csrf_field]"
    by (simp add: nameless_form_def find_all_def is_tag_named_def nameless_input_def
          empty_name_input_def csrf_field_def)
  have h4: "scan_inputs [empty_name_input, csrf_field] = Inr (Some ''CSRF_Token'')"
    by code_simp
  from nameless_hidden_input_skipped [OF h1 h2 h3, of sample_external "''https://a.com/login''"]
  have "scan_inputs (find_all nameless_form ''input'') =
          scan_inputs ([] @ [empty_name_input, csrf_field])"
    by blast
  with h1 h2 h3 h4 show ?thesis
    by (simp add: nameless_input_def tag_get_def)
qed

subsection \<open>The method\<close>

lemma str_upper_GET: "str_upper ext ''GET'' = ''GET''"
  by code_simp

text \<open>
  C5, as amended. Whenever \<open>analyze_form\<close> returns a result, its method is the form's
  \<open>method\<close> attribute uppercased by \<open>str.upper\<close>, whatever that attribute is, and \<open>GET\<close>
  when the form has none. For an attribute that is ASCII this is the attribute with
  each of \<open>a\<close> to \<open>z\<close> replaced by its capital, and no lowercase letter is left in it; for
  an attribute beyond ASCII it is what the case mappings of Unicode give. It need not be
  an HTTP verb: see the counterexample.
\<close>

theorem method_is_uppercased:
  assumes "analyze_form ext form url = (lg, Some r)"
  shows "form_method r = str_upper ext (tag_get_default form ''method'' ''GET'') \<and>
         (tag_get form ''method'' = None \<longrightarrow> form_method r = ''GET'') \<and>
         (\<forall>m. tag_get form ''method'' = Some m \<and> str_isascii m \<longrightarrow>
              form_method r = ascii_upper m \<and>
              (\<forall>c \<in> set (form_method r). c \<notin> set ascii_lowercase)) \<and>
         (\<forall>m. tag_get form ''method'' = Some m \<and> \<not> str_isascii m \<longrightarrow>
              form_method r = unicode_upper ext m)"
proof -
  from assms have m: "form_method r = str_upper ext (tag_get_default form ''method'' ''GET'')"
    by (auto simp: analyze_form_Some analyze_form_try_eq split: sum.splits element.splits)
  have a: "tag_get form ''method'' = None \<longrightarrow> form_method r = ''GET''"
    by (simp add: m tag_get_default_def str_upper_GET)
  have b: "\<forall>m. tag_get form ''method'' = Some m \<and> str_isascii m \<longrightarrow>
              form_method r = ascii_upper m \<and>
              (\<forall>c \<in> set (form_method r). c \<notin> set ascii_lowercase)"
    by (auto simp: m tag_get_default_def str_upper_def ascii_upper_def char_upper_not_lower)
  have c: "\<forall>m. tag_get form ''method'' = Some m \<and> \<not> str_isascii m \<longrightarrow>
              form_method r = unicode_upper ext m"
    by (simp add: m tag_get_default_def str_upper_def)
  from m a b c show ?thesis by blast
qed

lemma dialog_form_result:
  "analyze_form sample_external dialog_form ''https://a.com/login'' = ([], Some dialog_result)"
  by code_simp

lemma strasse_form_result:
  "analyze_form sample_external strasse_form ''https://a.com/login'' =
     ([], Some (dialog_result\<lparr>form_method := ''STRASSE''\<rparr>))"
  by code_simp

theorem method_is_uppercased_witness:
  "tag_get login_form ''method'' = None \<and> form_method login_result = ''GET'' \<and>
   tag_get dialog_form ''method'' = Some ''dialog'' \<and> str_isascii ''dialog'' \<and>
   form_method dialog_result = ascii_upper ''dialog'' \<and>
   list_all (\<lambda>c. c \<notin> set ascii_lowercase) (form_method dialog_result) \<and>
   tag_get strasse_form ''method'' = Some (''stra'' @ [CHR 0xC3, CHR 0x9F] @ ''e'') \<and>
   \<not> str_isascii (''stra'' @ [CHR 0xC3, CHR 0x9F] @ ''e'') \<and>
   form_method (dialog_result\<lparr>form_method := ''STRASSE''\<rparr>) =
     unicode_upper sample_external (''stra'' @ [CHR 0xC3, CHR 0x9F] @ ''e'')"
proof -
  have h: "tag_get login_form ''method'' = None"
    by (simp add: login_form_def tag_get_def)
  from method_is_uppercased [OF login_form_result] h
  have a: "form_method login_result = ''GET''"
    by blast
  have d1: "tag_get dialog_form ''method'' = Some ''dialog''"
    by (simp add: dialog_form_def tag_get_def)
  have d2: "str_isascii ''dialog''"
    by code_simp
  from method_is_uppercased [OF dialog_form_result] d1 d2
  have b: "form_method dialog_result = ascii_upper ''dialog''"
    and c: "list_all (\<lambda>c. c \<notin> set ascii_lowercase) (form_method dialog_result)"
    unfolding list_all_iff by blast+
  have s1: "tag_get strasse_form ''method'' = Some (''stra'' @ [CHR 0xC3, CHR 0x9F] @ ''e'')"
    by (simp add: strasse_form_def tag_get_def)
  have s2: "\<not> str_isascii (''stra'' @ [CHR 0xC3, CHR 0x9F] @ ''e'')"
    by code_simp
  from method_is_uppercased [OF strasse_form_result] s1 s2
  have s3: "form_method (dialog_result\<lparr>form_method := ''STRASSE''\<rparr>) =
     unicode_upper sample_external (''stra'' @ [CHR 0xC3, CHR 0x9F] @ ''e'')"
    by blast
  from h a d1 d2 b c s1 s2 s3 show ?thesis by blast
qed

text \<open>
  A form with \<open>method="dialog"\<close> is analyzed, and the method of its result is \<open>DIALOG\<close>,
  which is none of the HTTP verbs.
\<close>

theorem method_not_http_verb_counterexample:
  "analyze_form sample_external dialog_form ''https://a.com/login'' = ([], Some dialog_result) \<and>
   form_method dialog_result = ''DIALOG'' \<and>
   \<not> List.member http_verbs (form_method dialog_result)"
  by code_simp

subsection \<open>validate_url\<close>

text \<open>
  C4. \<open>validate_url\<close> returns false when the parsed URL has an empty scheme or an empty
  network location, true when both are not empty, and false when the parse raises. It is
  a total function to \<open>bool\<close>: the bare \<open>except\<close> leaves no exception to propagate.
\<close>

theorem validate_url_scheme_and_netloc:
  "(\<forall>r. urlparse ext url '''' = Inr r \<and> (scheme r = '''' \<or> netloc r = '''') \<longrightarrow>
        \<not> validate_url ext url) \<and>
   (\<forall>r. urlparse ext url '''' = Inr r \<and> scheme r \<noteq> '''' \<and> netloc r \<noteq> '''' \<longrightarrow>
        validate_url ext url) \<and>
   (\<forall>e. urlparse ext url '''' = Inl e \<longrightarrow> \<not> validate_url ext url)"
  by (auto simp: validate_url_def)

theorem validate_url_scheme_and_netloc_witness:
  "urlparse sample_external ''not-a-url'' '''' =
     Inr \<lparr>scheme = '''', netloc = '''', path = ''not-a-url'', params = '''', query = '''',
          fragment = ''''\<rparr> \<and>
   \<not> validate_url sample_external ''not-a-url'' \<and>
   urlparse sample_external ''https://a.com/login'' '''' =
     Inr \<lparr>scheme = ''https'', netloc = ''a.com'', path = ''/login'', params = '''',
          query = '''', fragment = ''''\<rparr> \<and>
   validate_url sample_external ''https://a.com/login'' \<and>
   urlparse sample_external ''http://[::1'' '''' = Inl (Exn ValueError ''Invalid IPv6 URL'') \<and>
   \<not> validate_url sample_external ''http://[::1''"
proof -
  have a: "urlparse sample_external ''not-a-url'' '''' =
     Inr \<lparr>scheme = '''', netloc = '''', path = ''not-a-url'', params = '''', query = '''',
          fragment = ''''\<rparr>"
    by code_simp
  have b: "urlparse sample_external ''https://a.com/login'' '''' =
     Inr \<lparr>scheme = ''https'', netloc = ''a.com'', path = ''/login'', params = '''',
          query = '''', fragment = ''''\<rparr>"
    by code_simp
  have c: "urlparse sample_external ''http://[::1'' '''' = Inl (Exn ValueError ''Invalid IPv6 URL'')"
    by code_simp
  from validate_url_scheme_and_netloc [of sample_external "''not-a-url''"] a
  have a': "\<not> validate_url sample_external ''not-a-url''"
    by simp
  from validate_url_scheme_and_netloc [of sample_external "''https://a.com/login''"] b
  have b': "validate_url sample_external ''https://a.com/login''"
    by simp
  from validate_url_scheme_and_netloc [of sample_external "''http://[::1''"] c
  have c': "\<not> validate_url sample_external ''http://[::1''"
    by simp
  from a a' b b' c c' show ?thesis by blast
qed

subsection \<open>get_forms\<close>

lemma raise_for_status_Inr:
  "(\<exists>u. raise_for_status resp = Inr u) \<longleftrightarrow> \<not> (400 \<le> status_code resp \<and> status_code resp < 600)"
  by (auto simp: raise_for_status_def)

lemma raise_for_status_Inl:
  "raise_for_status resp = Inl e \<Longrightarrow> is_RequestException e"
  by (auto simp: raise_for_status_def is_RequestException_def split: if_splits)

text \<open>
  C7, as amended. \<open>get_forms\<close> returns in every case. When the fetch raises, when the
  status of the response is from 400 to 599, and when the HTML parser raises, it logs one
  error and returns the empty list. On every other response it returns the \<open>form\<close> tags
  of the parsed body and logs nothing; these are the responses whose status is outside
  400 to 599, not only those of status 2xx or 3xx: see the counterexample.
\<close>

theorem get_forms_outcomes:
  "(\<forall>e. requests_get ext url = Inl e \<longrightarrow>
        snd (get_forms ext url) = [] \<and> (\<exists>m. fst (get_forms ext url) = [(ERROR, m)])) \<and>
   (\<forall>resp. requests_get ext url = Inr resp \<and>
        400 \<le> status_code resp \<and> status_code resp < 600 \<longrightarrow>
        snd (get_forms ext url) = [] \<and>
        (\<exists>m. fst (get_forms ext url) = [(ERROR, ''Error fetching URL: '' @ m)])) \<and>
   (\<forall>resp e. requests_get ext url = Inr resp \<and>
        \<not> (400 \<le> status_code resp \<and> status_code resp < 600) \<and>
        html_parser ext (content resp) = Inl e \<longrightarrow>
        snd (get_forms ext url) = [] \<and> (\<exists>m. fst (get_forms ext url) = [(ERROR, m)])) \<and>
   (\<forall>resp soup. requests_get ext url = Inr resp \<and>
        \<not> (400 \<le> status_code resp \<and> status_code resp < 600) \<and>
        html_parser ext (content resp) = Inr soup \<longrightarrow>
        get_forms ext url = ([], find_all soup ''form''))"
proof -
  have a: "snd (get_forms ext url) = [] \<and> (\<exists>m. fst (get_forms ext url) = [(ERROR, m)])"
    if "get_forms_try ext url = Inl e" for e
    using that by (simp add: get_forms_def)
  have b: "snd (get_forms ext url) = [] \<and>
           (\<exists>m. fst (get_forms ext url) = [(ERROR, ''Error fetching URL: '' @ m)])"
    if "requests_get ext url = Inr resp" "400 \<le> status_code resp \<and> status_code resp < 600"
    for resp
  proof -
    from that(2) obtain e where e: "raise_for_status resp = Inl e"
      by (cases "status_code resp < 500") (auto simp: raise_for_status_def)
    then have "is_RequestException e" by (rule raise_for_status_Inl)
    moreover from that(1) e have "get_forms_try ext url = Inl e"
      by (simp add: get_forms_try_def)
    ultimately show ?thesis
      by (simp add: get_forms_def)
  qed
  have c: "get_forms_try ext url = Inl e" if "requests_get ext url = Inl e" for e
    using that by (simp add: get_forms_try_def)
  have d: "get_forms_try ext url = Inl e"
    if "requests_get ext url = Inr resp"
      "\<not> (400 \<le> status_code resp \<and> status_code resp < 600)"
      "html_parser ext (content resp) = Inl e" for resp e
    using that by (auto simp: get_forms_try_def raise_for_status_def)
  have e: "get_forms ext url = ([], find_all soup ''form'')"
    if "requests_get ext url = Inr resp"
      "\<not> (400 \<le> status_code resp \<and> status_code resp < 600)"
      "html_parser ext (content resp) = Inr soup" for resp soup
    using that by (auto simp: get_forms_def get_forms_try_def raise_for_status_def)
  from a b c d e show ?thesis by blast
qed


theorem get_forms_outcomes_witness:
  "requests_get offline_external ''https://a.com/login'' = Inl (Exn Timeout ''Read timed out.'') \<and>
   snd (get_forms offline_external ''https://a.com/login'') = [] \<and>
   requests_get failing_external ''https://a.com/login'' =
     Inr \<lparr>status_code = 500, content = ''<form action=/submit>''\<rparr> \<and>
   snd (get_forms failing_external ''https://a.com/login'') = [] \<and>
   requests_get unparsable_external ''https://a.com/login'' =
     Inr \<lparr>status_code = 200, content = ''<form action=/submit>''\<rparr> \<and>
   html_parser unparsable_external ''<form action=/submit>'' =
     Inl (Exn OtherException ''maximum recursion depth exceeded'') \<and>
   snd (get_forms unparsable_external ''https://a.com/login'') = [] \<and>
   requests_get sample_external ''https://a.com/login'' =
     Inr \<lparr>status_code = 200, content = ''<form action=/submit>''\<rparr> \<and>
   html_parser sample_external ''<form action=/submit>'' =
     Inr (Tag ''[document]'' Map.empty [login_form]) \<and>
   get_forms sample_external ''https://a.com/login'' =
     ([], find_all (Tag ''[document]'' Map.empty [login_form]) ''form'')"
proof -
  let ?u = "''https://a.com/login''"
  have a: "requests_get offline_external ?u = Inl (Exn Timeout ''Read timed out.'')"
    by (simp add: offline_external_def sample_external_def)
  have b: "requests_get failing_external ?u =
             Inr \<lparr>status_code = 500, content = ''<form action=/submit>''\<rparr>"
    by (simp add: failing_external_def sample_external_def)
  have c: "requests_get unparsable_external ?u =
             Inr \<lparr>status_code = 200, content = ''<form action=/submit>''\<rparr>"
    by (simp add: unparsable_external_def sample_external_def)
  have c': "html_parser unparsable_external ''<form action=/submit>'' =
              Inl (Exn OtherException ''maximum recursion depth exceeded'')"
    by (simp add: unparsable_external_def sample_external_def)
  have d: "requests_get sample_external ?u =
             Inr \<lparr>status_code = 200, content = ''<form action=/submit>''\<rparr>"
    by (simp add: sample_external_def)
  have d': "html_parser sample_external ''<form action=/submit>'' =
              Inr (Tag ''[document]'' Map.empty [login_form])"
    by (simp add: sample_external_def)
  from get_forms_outcomes [of offline_external ?u] a
  have a1: "snd (get_forms offline_external ?u) = []"
    by blast
  from get_forms_outcomes [of failing_external ?u] b
  have b1: "snd (get_forms failing_external ?u) = []"
    by simp
  from get_forms_outcomes [of unparsable_external ?u] c c'
  have c1: "snd (get_forms unparsable_external ?u) = []"
    by simp
  from get_forms_outcomes [of sample_external ?u] d d'
  have d1: "get_forms sample_external ?u =
              ([], find_all (Tag ''[document]'' Map.empty [login_form]) ''form'')"
    by simp
  from a a1 b b1 c c' c1 d d' d1 show ?thesis by blast
qed

text \<open>
  A response with status 999, which is neither 2xx nor 3xx: \<open>raise_for_status\<close> returns,
  the body is parsed, and its form is returned.
\<close>

theorem get_forms_status_counterexample:
  "requests_get throttled_external ''https://a.com/login'' =
     Inr \<lparr>status_code = 999, content = ''<form action=/submit>''\<rparr> \<and>
   \<not> (200 \<le> (999::nat) \<and> (999::nat) < 400) \<and>
   fst (get_forms throttled_external ''https://a.com/login'') = [] \<and>
   map tag_name (snd (get_forms throttled_external ''https://a.com/login'')) = [''form'']"
  by code_simp

subsection \<open>main\<close>

lemma report_forms_append:
  "report_forms ext url i (xs @ ys) =
     report_forms ext url i xs @ report_forms ext url (i + length xs) ys"
  by (induction xs arbitrary: i) auto

text \<open>
  C6. The exit code is 1 if and only if the URL fails validation, and 0 for every URL that
  passes it, whatever the fetch, the parser and the analysis of each form do.
\<close>

theorem exit_code_one_iff_invalid_url:
  "(snd (main ext url verbose) = 1 \<longleftrightarrow> \<not> validate_url ext url) \<and>
   (validate_url ext url \<longrightarrow> snd (main ext url verbose) = 0)"
  by (auto simp: main_def Let_def split: prod.splits)

theorem exit_code_one_iff_invalid_url_witness:
  "\<not> validate_url sample_external ''not-a-url'' \<and>
   snd (main sample_external ''not-a-url'' False) = 1 \<and>
   validate_url offline_external ''https://a.com/login'' \<and>
   snd (main offline_external ''https://a.com/login'' False) = 0 \<and>
   validate_url mixed_external ''https://a.com/login'' \<and>
   snd (main mixed_external ''https://a.com/login'' True) = 0"
proof -
  have a: "\<not> validate_url sample_external ''not-a-url''"
    by code_simp
  have b: "validate_url offline_external ''https://a.com/login''"
    by code_simp
  have c: "validate_url mixed_external ''https://a.com/login''"
    by code_simp
  from exit_code_one_iff_invalid_url [of sample_external "''not-a-url''" False] a
  have a1: "snd (main sample_external ''not-a-url'' False) = 1"
    by blast
  from exit_code_one_iff_invalid_url [of offline_external "''https://a.com/login''" False] b
  have b1: "snd (main offline_external ''https://a.com/login'' False) = 0"
    by blast
  from exit_code_one_iff_invalid_url [of mixed_external "''https://a.com/login''" True] c
  have c1: "snd (main mixed_external ''https://a.com/login'' True) = 0"
    by blast
  from a a1 b b1 c c1 show ?thesis by blast
qed

text \<open>The loop of \<open>main\<close> reports every form, each under its number.\<close>

lemma report_forms_each:
  "report_forms ext url i forms =
     concat (map (\<lambda>(j, f). report_form ext url j f) (zip [i..<i + length forms] forms))"
proof (induction forms arbitrary: i)
  case Nil
  show ?case by simp
next
  case (Cons f fs)
  have "i < i + length (f # fs)"
    by simp
  then have "[i..<i + length (f # fs)] = i # [Suc i..<i + length (f # fs)]"
    by (rule upt_conv_Cons)
  then have "[i..<i + length (f # fs)] = i # [Suc i..<Suc i + length fs]"
    by simp
  with Cons.IH [of "Suc i"] show ?case
    by simp
qed

text \<open>
  C8. An exception raised in the body of \<open>analyze_form\<close>, by an attribute access (on a
  form that is no tag) or by the URL resolution, is caught there: \<open>analyze_form\<close> logs it
  and returns \<open>None\<close>, which no analysis that succeeds returns. When this happens for one
  of the forms of the page, \<open>main\<close> logs the forms before it, logs that the analysis of
  this form failed, goes on to log every form after it under its number, and exits
  with 0.
\<close>

theorem analyze_failure_contained:
  "(\<forall>s. form = NavigableString s \<longrightarrow> (\<exists>e. analyze_form_try ext form url = Inl e)) \<and>
   (\<forall>n a cs e. form = Tag n a cs \<and>
        urljoin ext url (tag_get_default form ''action'' url) = Inl e \<longrightarrow>
        analyze_form_try ext form url = Inl e) \<and>
   (\<forall>e. analyze_form_try ext form url = Inl e \<longrightarrow>
        analyze_form ext form url = ([(ERROR, ''Error analyzing form: '' @ exn_msg e)], None) \<and>
        (\<forall>ext' form' url' lg r. analyze_form ext' form' url' = (lg, Some r) \<longrightarrow>
           snd (analyze_form ext form url) \<noteq> snd (analyze_form ext' form' url'))) \<and>
   (\<forall>e fetch_log before after.
        analyze_form_try ext form url = Inl e \<and> validate_url ext url \<and>
        get_forms ext url = (fetch_log, before @ form # after) \<longrightarrow>
        main ext url verbose =
          ([(INFO, ''Analyzing URL: '' @ url)] @ fetch_log @
           concat (map (\<lambda>(j, f). report_form ext url j f) (zip [0..<length before] before)) @
           [(INFO, ''Analyzing Form '' @ str_nat (length before + 1) @ '':''),
            (ERROR, ''Error analyzing form: '' @ exn_msg e),
            (ERROR, ''  Failed to analyze form '' @ str_nat (length before + 1))] @
           concat (map (\<lambda>(j, f). report_form ext url j f)
                     (zip [length before + 1..<length before + 1 + length after] after)),
           0))"
proof -
  have a: "\<forall>s. form = NavigableString s \<longrightarrow> (\<exists>e. analyze_form_try ext form url = Inl e)"
    by (simp add: analyze_form_try_def)
  have b: "\<forall>n a cs e. form = Tag n a cs \<and>
        urljoin ext url (tag_get_default form ''action'' url) = Inl e \<longrightarrow>
        analyze_form_try ext form url = Inl e"
    by (auto simp: analyze_form_try_eq)
  have c: "analyze_form ext form url = ([(ERROR, ''Error analyzing form: '' @ exn_msg e)], None) \<and>
        (\<forall>ext' form' url' lg r. analyze_form ext' form' url' = (lg, Some r) \<longrightarrow>
           snd (analyze_form ext form url) \<noteq> snd (analyze_form ext' form' url'))"
    if "analyze_form_try ext form url = Inl e" for e
    using that by (simp add: analyze_form_def)
  have d: "main ext url verbose =
          ([(INFO, ''Analyzing URL: '' @ url)] @ fetch_log @
           concat (map (\<lambda>(j, f). report_form ext url j f) (zip [0..<length before] before)) @
           [(INFO, ''Analyzing Form '' @ str_nat (length before + 1) @ '':''),
            (ERROR, ''Error analyzing form: '' @ exn_msg e),
            (ERROR, ''  Failed to analyze form '' @ str_nat (length before + 1))] @
           concat (map (\<lambda>(j, f). report_form ext url j f)
                     (zip [length before + 1..<length before + 1 + length after] after)),
           0)"
    if h: "analyze_form_try ext form url = Inl e" "validate_url ext url"
      "get_forms ext url = (fetch_log, before @ form # after)"
    for e fetch_log before after
  proof -
    from h(1) have f: "analyze_form ext form url =
        ([(ERROR, ''Error analyzing form: '' @ exn_msg e)], None)"
      by (simp add: analyze_form_def)
    have one: "report_form ext url (length before) form =
          [(INFO, ''Analyzing Form '' @ str_nat (length before + 1) @ '':''),
           (ERROR, ''Error analyzing form: '' @ exn_msg e),
           (ERROR, ''  Failed to analyze form '' @ str_nat (length before + 1))]"
      by (simp add: report_form_def report_result_def f)
    have "report_forms ext url 0 (before @ form # after) =
            report_forms ext url 0 before @ report_form ext url (length before) form @
            report_forms ext url (length before + 1) after"
      by (simp add: report_forms_append)
    then have "report_forms ext url 0 (before @ form # after) =
           concat (map (\<lambda>(j, f). report_form ext url j f) (zip [0..<length before] before)) @
           [(INFO, ''Analyzing Form '' @ str_nat (length before + 1) @ '':''),
            (ERROR, ''Error analyzing form: '' @ exn_msg e),
            (ERROR, ''  Failed to analyze form '' @ str_nat (length before + 1))] @
           concat (map (\<lambda>(j, f). report_form ext url j f)
                     (zip [length before + 1..<length before + 1 + length after] after))"
      using report_forms_each [of ext url 0 before]
        report_forms_each [of ext url "length before + 1" after]
      by (simp add: one)
    with h(2,3) show ?thesis
      by (simp add: main_def)
  qed
  from a b c d show ?thesis by blast
qed

theorem analyze_failure_contained_witness:
  "analyze_form_try mixed_external broken_form ''https://a.com/login'' =
     Inl (Exn ValueError ''Invalid IPv6 URL'') \<and>
   validate_url mixed_external ''https://a.com/login'' \<and>
   map tag_name (snd (get_forms mixed_external ''https://a.com/login'')) =
     [''form'', ''form'', ''form''] \<and>
   analyze_form mixed_external broken_form ''https://a.com/login'' =
     ([(ERROR, ''Error analyzing form: Invalid IPv6 URL'')], None) \<and>
   main mixed_external ''https://a.com/login'' False =
     ([(INFO, ''Analyzing URL: https://a.com/login''),
       (INFO, ''Analyzing Form 1:''),
       (INFO, ''  Method: GET''),
       (INFO, ''  Action: https://a.com/submit''),
       (INFO, ''  CSRF Token Present: Yes (Name: CSRF_Token)''),
       (INFO, ''Analyzing Form 2:''),
       (ERROR, ''Error analyzing form: Invalid IPv6 URL''),
       (ERROR, ''  Failed to analyze form 2''),
       (INFO, ''Analyzing Form 3:''),
       (INFO, ''  Method: POST''),
       (INFO, ''  Action: https://a.com/login''),
       (WARNING, ''  CSRF Token Present: No''),
       (WARNING, ''  Potential CSRF vulnerability found!'')], 0) \<and>
   analyze_form mixed_external (NavigableString ''text'') ''https://a.com/login'' =
     ([(ERROR, ''Error analyzing form: '' @ [CHR 0x27] @ ''NavigableString'' @ [CHR 0x27] @
               '' object has no attribute '' @ [CHR 0x27] @ ''get'' @ [CHR 0x27])], None)"
proof -
  have h1: "analyze_form_try mixed_external broken_form ''https://a.com/login'' =
     Inl (Exn ValueError ''Invalid IPv6 URL'')"
    by code_simp
  have h2: "validate_url mixed_external ''https://a.com/login''"
    by code_simp
  have h3: "get_forms mixed_external ''https://a.com/login'' =
     ([], [login_form] @ broken_form # [plain_form])"
    by (simp add: get_forms_def get_forms_try_def mixed_external_def sample_external_def
        raise_for_status_def find_all_def is_tag_named_def login_form_def broken_form_def
        plain_form_def csrf_field_def)
  have h4: "analyze_form_try mixed_external (NavigableString ''text'') ''https://a.com/login'' =
     Inl (Exn AttributeError ([CHR 0x27] @ ''NavigableString'' @ [CHR 0x27] @
            '' object has no attribute '' @ [CHR 0x27] @ ''get'' @ [CHR 0x27]))"
    by (simp add: analyze_form_try_def)
  have n: "str_nat (Suc (Suc 0)) = ''2''"
    by code_simp
  have f1: "report_form mixed_external ''https://a.com/login'' 0 login_form =
      [(INFO, ''Analyzing Form 1:''), (INFO, ''  Method: GET''),
       (INFO, ''  Action: https://a.com/submit''),
       (INFO, ''  CSRF Token Present: Yes (Name: CSRF_Token)'')]"
    by code_simp
  have f3: "report_form mixed_external ''https://a.com/login'' (Suc (Suc 0)) plain_form =
      [(INFO, ''Analyzing Form 3:''), (INFO, ''  Method: POST''),
       (INFO, ''  Action: https://a.com/login''),
       (WARNING, ''  CSRF Token Present: No''),
       (WARNING, ''  Potential CSRF vulnerability found!'')]"
    by code_simp
  from analyze_failure_contained [of broken_form mixed_external "''https://a.com/login''" False] h1
  have a: "analyze_form mixed_external broken_form ''https://a.com/login'' =
     ([(ERROR, ''Error analyzing form: Invalid IPv6 URL'')], None)"
    by simp
  from analyze_failure_contained [of broken_form mixed_external "''https://a.com/login''" False]
    h1 h2 h3
  have "main mixed_external ''https://a.com/login'' False =
          ([(INFO, ''Analyzing URL: '' @ ''https://a.com/login'')] @ [] @
           concat (map (\<lambda>(j, f). report_form mixed_external ''https://a.com/login'' j f)
                     (zip [0..<length [login_form]] [login_form])) @
           [(INFO, ''Analyzing Form '' @ str_nat (length [login_form] + 1) @ '':''),
            (ERROR, ''Error analyzing form: '' @ exn_msg (Exn ValueError ''Invalid IPv6 URL'')),
            (ERROR, ''  Failed to analyze form '' @ str_nat (length [login_form] + 1))] @
           concat (map (\<lambda>(j, f). report_form mixed_external ''https://a.com/login'' j f)
                     (zip [length [login_form] + 1..<length [login_form] + 1 + length [plain_form]]
                        [plain_form])),
           0)"
    by blast
  then have m: "main mixed_external ''https://a.com/login'' False =
     ([(INFO, ''Analyzing URL: https://a.com/login''),
       (INFO, ''Analyzing Form 1:''),
       (INFO, ''  Method: GET''),
       (INFO, ''  Action: https://a.com/submit''),
       (INFO, ''  CSRF Token Present: Yes (Name: CSRF_Token)''),
       (INFO, ''Analyzing Form 2:''),
       (ERROR, ''Error analyzing form: Invalid IPv6 URL''),
       (ERROR, ''  Failed to analyze form 2''),
       (INFO, ''Analyzing Form 3:''),
       (INFO, ''  Method: POST''),
       (INFO, ''  Action: https://a.com/login''),
       (WARNING, ''  CSRF Token Present: No''),
       (WARNING, ''  Potential CSRF vulnerability found!'')], 0)"
    by (simp add: n f1 f3 numeral_2_eq_2 upt_rec)
  from analyze_failure_contained [of "NavigableString ''text''" mixed_external
      "''https://a.com/login''" False] h4
  have s: "analyze_form mixed_external (NavigableString ''text'') ''https://a.com/login'' =
     ([(ERROR, ''Error analyzing form: '' @ [CHR 0x27] @ ''NavigableString'' @ [CHR 0x27] @
               '' object has no attribute '' @ [CHR 0x27] @ ''get'' @ [CHR 0x27])], None)"
    by simp
  from h3 have t: "map tag_name (snd (get_forms mixed_external ''https://a.com/login'')) =
     [''form'', ''form'', ''form'']"
    by (simp add: login_form_def broken_form_def plain_form_def)
  from h1 h2 t a m s show ?thesis
    by blast
qed

subsection \<open>The action\<close>















subsection \<open>The scheme in urlsplit and urlparse\<close>
















subsection \<open>urljoin\<close>





subsection \<open>Paths and their segments\<close>

text \<open>The two examples of RFC 3986, section 5.2.4, and some of section 5.4.\<close>

lemma remove_dot_segments_examples:
  "remove_dot_segments ''/a/b/c/./../../g'' = ''/a/g''"
  "remove_dot_segments ''mid/content=5/../6'' = ''mid/6''"
  "target_path ''/b/c/d'' ''../g'' = ''/b/g''"
  "target_path ''/b/c/d'' ''../../../g'' = ''/g''"
  "target_path ''/b/c/d'' ''./g/.'' = ''/b/c/g/''"
  "target_path ''/b/c/d'' ''/./g'' = ''/g''"
  "target_path '''' ''g'' = ''/g''"
  by code_simp+

lemma slashes_Nil: "slashes [] = ''''"
  by (simp add: slashes_def)

lemma slashes_Cons: "slashes (s # ss) = CHR ''/'' # s @ slashes ss"
  by (simp add: slashes_def)



lemma slashes_empty_iff: "slashes ss = '''' \<longleftrightarrow> ss = []"
  by (cases ss) (simp_all add: slashes_Nil slashes_Cons)






subsection \<open>The dot segments of RFC 3986, segment by segment\<close>











subsection \<open>The segments of urljoin\<close>















subsection \<open>The path after a network location\<close>







subsection \<open>The leading slash of urlunsplit\<close>







end
